theory Spec2Isabelle
  imports Complex_Main
begin

section \<open>Strings and numbers of the host language\<close>

text \<open>
  A JavaScript string is a sequence of UTF-16 code units; a code unit is modelled by its
  number. All comparisons the tokenizer makes between one-character strings
  (\<^verbatim>\<open>char >= '0' && char <= '9'\<close>) are comparisons of code units.
  ASCII literals of the source are written \<open>str ''...''\<close>; the non-ASCII symbols of the
  source get a name each, with the code units the source file holds.
\<close>

type_synonym jschar = nat
type_synonym jsstring = "jschar list"

definition str :: "string \<Rightarrow> jsstring" where
  "str s = map of_char s"

text \<open>
  A JavaScript number, idealised: the finite values are the reals (no rounding to
  binary64, no overflow to infinity, no negative zero), together with the two
  infinities and NaN. Only the product of the factorial is rounded as binary64 rounds
  it (\<open>round64\<close> below). The value \<^verbatim>\<open>undefined\<close>, which the source only ever feeds to
  arithmetic, comparisons and \<^verbatim>\<open>Math\<close> functions, behaves there as NaN and is
  represented by it.
\<close>

datatype num = Num real | Infinity | NegInfinity | NaN

definition isFinite :: "num \<Rightarrow> bool" where
  "isFinite x = (case x of Num _ \<Rightarrow> True | _ \<Rightarrow> False)"

definition isInteger :: "num \<Rightarrow> bool" where
  \<comment> \<open>\<^verbatim>\<open>Number.isInteger\<close>\<close>
  "isInteger x = (case x of Num r \<Rightarrow> r \<in> \<int> | _ \<Rightarrow> False)"

fun num_less :: "num \<Rightarrow> num \<Rightarrow> bool" where
  "num_less NaN _ = False"
| "num_less _ NaN = False"
| "num_less (Num x) (Num y) = (x < y)"
| "num_less (Num x) Infinity = True"
| "num_less (Num x) NegInfinity = False"
| "num_less Infinity _ = False"
| "num_less NegInfinity NegInfinity = False"
| "num_less NegInfinity _ = True"

definition num_eq :: "num \<Rightarrow> num \<Rightarrow> bool" where
  \<comment> \<open>\<^verbatim>\<open>===\<close> on numbers: NaN is not equal to itself\<close>
  "num_eq x y = (x \<noteq> NaN \<and> x = y)"

definition num_le :: "num \<Rightarrow> num \<Rightarrow> bool" where
  "num_le x y = (num_less x y \<or> num_eq x y)"

definition num_gt :: "num \<Rightarrow> num \<Rightarrow> bool" where
  "num_gt x y = num_less y x"

fun num_neg :: "num \<Rightarrow> num" where
  "num_neg (Num x) = Num (- x)"
| "num_neg Infinity = NegInfinity"
| "num_neg NegInfinity = Infinity"
| "num_neg NaN = NaN"

fun num_add :: "num \<Rightarrow> num \<Rightarrow> num" where
  "num_add NaN _ = NaN"
| "num_add _ NaN = NaN"
| "num_add (Num x) (Num y) = Num (x + y)"
| "num_add (Num x) y = y"
| "num_add Infinity NegInfinity = NaN"
| "num_add NegInfinity Infinity = NaN"
| "num_add x _ = x"

definition num_sub :: "num \<Rightarrow> num \<Rightarrow> num" where
  "num_sub x y = num_add x (num_neg y)"

definition signed_inf :: "bool \<Rightarrow> num" where
  "signed_inf positive = (if positive then Infinity else NegInfinity)"

fun num_mul :: "num \<Rightarrow> num \<Rightarrow> num" where
  "num_mul NaN _ = NaN"
| "num_mul _ NaN = NaN"
| "num_mul (Num x) (Num y) = Num (x * y)"
| "num_mul (Num x) Infinity = (if x = 0 then NaN else signed_inf (0 < x))"
| "num_mul (Num x) NegInfinity = (if x = 0 then NaN else signed_inf (x < 0))"
| "num_mul Infinity (Num y) = (if y = 0 then NaN else signed_inf (0 < y))"
| "num_mul NegInfinity (Num y) = (if y = 0 then NaN else signed_inf (y < 0))"
| "num_mul Infinity Infinity = Infinity"
| "num_mul NegInfinity NegInfinity = Infinity"
| "num_mul Infinity NegInfinity = NegInfinity"
| "num_mul NegInfinity Infinity = NegInfinity"

fun num_div :: "num \<Rightarrow> num \<Rightarrow> num" where
  "num_div NaN _ = NaN"
| "num_div _ NaN = NaN"
| "num_div (Num x) (Num y) =
     (if y = 0 then (if x = 0 then NaN else signed_inf (0 < x)) else Num (x / y))"
| "num_div (Num x) _ = Num 0"
| "num_div Infinity (Num y) = signed_inf (0 \<le> y)"
| "num_div NegInfinity (Num y) = signed_inf (y < 0)"
| "num_div _ _ = NaN"

fun num_abs :: "num \<Rightarrow> num" where
  "num_abs (Num x) = Num \<bar>x\<bar>"
| "num_abs NaN = NaN"
| "num_abs _ = Infinity"

definition trunc :: "real \<Rightarrow> real" where
  "trunc x = (if 0 \<le> x then of_int \<lfloor>x\<rfloor> else of_int \<lceil>x\<rceil>)"

fun num_rem :: "num \<Rightarrow> num \<Rightarrow> num" where
  \<comment> \<open>the \<^verbatim>\<open>%\<close> operator: the remainder takes the sign of the dividend\<close>
  "num_rem (Num x) (Num y) = (if y = 0 then NaN else Num (x - y * trunc (x / y)))"
| "num_rem (Num x) Infinity = Num x"
| "num_rem (Num x) NegInfinity = Num x"
| "num_rem _ _ = NaN"

definition is_odd_integer :: "real \<Rightarrow> bool" where
  "is_odd_integer y = (y \<in> \<int> \<and> odd \<lfloor>y\<rfloor>)"

definition real_pow :: "real \<Rightarrow> real \<Rightarrow> num" where
  \<comment> \<open>\<^verbatim>\<open>Math.pow\<close> on finite arguments\<close>
  "real_pow x y =
     (if y = 0 then Num 1
      else if 0 < x then Num (x powr y)
      else if x = 0 then (if 0 < y then Num 0 else Infinity)
      else if y \<in> \<int> then
        Num ((if odd \<lfloor>y\<rfloor> then - 1 else 1) * (\<bar>x\<bar> powr y))
      else NaN)"

fun Math_pow :: "num \<Rightarrow> num \<Rightarrow> num" where
  "Math_pow _ NaN = NaN"
| "Math_pow x (Num y) =
     (if y = 0 then Num 1
      else case x of
        NaN \<Rightarrow> NaN
      | Num r \<Rightarrow> real_pow r y
      | Infinity \<Rightarrow> (if 0 < y then Infinity else Num 0)
      | NegInfinity \<Rightarrow>
          (if 0 < y then (if is_odd_integer y then NegInfinity else Infinity) else Num 0))"
| "Math_pow x Infinity =
     (case x of
        NaN \<Rightarrow> NaN
      | Num r \<Rightarrow> (if \<bar>r\<bar> = 1 then NaN else if 1 < \<bar>r\<bar> then Infinity else Num 0)
      | _ \<Rightarrow> Infinity)"
| "Math_pow x NegInfinity =
     (case x of
        NaN \<Rightarrow> NaN
      | Num r \<Rightarrow> (if \<bar>r\<bar> = 1 then NaN else if 1 < \<bar>r\<bar> then Num 0 else Infinity)
      | _ \<Rightarrow> Num 0)"

definition lift_real :: "(real \<Rightarrow> real) \<Rightarrow> num \<Rightarrow> num" where
  \<comment> \<open>a \<^verbatim>\<open>Math\<close> function that is NaN outside the finite numbers\<close>
  "lift_real g x = (case x of Num r \<Rightarrow> Num (g r) | _ \<Rightarrow> NaN)"

definition Math_sin :: "num \<Rightarrow> num" where "Math_sin = lift_real sin"
definition Math_cos :: "num \<Rightarrow> num" where "Math_cos = lift_real cos"
definition Math_tan :: "num \<Rightarrow> num" where "Math_tan = lift_real tan"

definition Math_asin :: "num \<Rightarrow> num" where
  "Math_asin x = (case x of Num r \<Rightarrow> (if \<bar>r\<bar> \<le> 1 then Num (arcsin r) else NaN) | _ \<Rightarrow> NaN)"

definition Math_acos :: "num \<Rightarrow> num" where
  "Math_acos x = (case x of Num r \<Rightarrow> (if \<bar>r\<bar> \<le> 1 then Num (arccos r) else NaN) | _ \<Rightarrow> NaN)"

definition Math_atan :: "num \<Rightarrow> num" where
  "Math_atan x = (case x of Num r \<Rightarrow> Num (arctan r) | Infinity \<Rightarrow> Num (pi / 2)
                  | NegInfinity \<Rightarrow> Num (- pi / 2) | NaN \<Rightarrow> NaN)"

definition Math_sinh :: "num \<Rightarrow> num" where
  "Math_sinh x = (case x of Num r \<Rightarrow> Num (sinh r) | _ \<Rightarrow> x)"

definition Math_cosh :: "num \<Rightarrow> num" where
  "Math_cosh x = (case x of Num r \<Rightarrow> Num (cosh r) | NaN \<Rightarrow> NaN | _ \<Rightarrow> Infinity)"

definition Math_tanh :: "num \<Rightarrow> num" where
  "Math_tanh x = (case x of Num r \<Rightarrow> Num (tanh r) | Infinity \<Rightarrow> Num 1
                  | NegInfinity \<Rightarrow> Num (- 1) | NaN \<Rightarrow> NaN)"

definition real_log :: "(real \<Rightarrow> real) \<Rightarrow> num \<Rightarrow> num" where
  \<comment> \<open>\<^verbatim>\<open>Math.log\<close> and \<^verbatim>\<open>Math.log10\<close> share their special cases\<close>
  "real_log g x =
     (case x of
        Num r \<Rightarrow> (if r < 0 then NaN else if r = 0 then NegInfinity else Num (g r))
      | Infinity \<Rightarrow> Infinity
      | _ \<Rightarrow> NaN)"

definition Math_log10 :: "num \<Rightarrow> num" where "Math_log10 = real_log (log 10)"
definition Math_log :: "num \<Rightarrow> num" where "Math_log = real_log ln"

definition Math_sqrt :: "num \<Rightarrow> num" where
  "Math_sqrt x =
     (case x of Num r \<Rightarrow> (if r < 0 then NaN else Num (sqrt r)) | Infinity \<Rightarrow> Infinity
      | _ \<Rightarrow> NaN)"

definition Math_cbrt :: "num \<Rightarrow> num" where
  "Math_cbrt x = (case x of Num r \<Rightarrow> Num (root 3 r) | _ \<Rightarrow> x)"

definition Math_PI :: num where "Math_PI = Num pi"
definition Math_E :: num where "Math_E = Num (exp 1)"

subsection \<open>Rounding to binary64\<close>

text \<open>
  Where a property below is about the digits of a result, the operation is modelled
  with the rounding of binary64 arithmetic: \<open>round64 x\<close> is the number nearest to the
  real \<open>x\<close> with a 53-bit significand (ties to the even significand, exponents from
  -1022 as for subnormal numbers), and an infinity from \<open>2 ^ 1024\<close> on.
  \<open>ilog2 x\<close> is the exponent of a positive \<open>x\<close>, the integer \<open>e\<close> with
  \<open>2 ^ e \<le> x < 2 ^ (e + 1)\<close>. The factorial's loop multiplies with \<open>mul64\<close>.
\<close>

definition pow2 :: "int \<Rightarrow> real" where
  "pow2 e = (if 0 \<le> e then 2 ^ nat e else 1 / 2 ^ nat (- e))"

lemma ilog2_up: "2 \<le> x \<Longrightarrow> nat \<lfloor>x / 2\<rfloor> < nat \<lfloor>x\<rfloor>" for x :: real
  by linarith

lemma ilog2_down:
  fixes x :: real
  assumes "0 < x" "x < 1"
  shows "(if 1 \<le> x * 2 then nat \<lfloor>x * 2\<rfloor> else nat \<lceil>1 / (x * 2)\<rceil>) < nat \<lceil>1 / x\<rceil>"
proof -
  have y: "1 < 1 / x" using assms by simp
  then have c: "2 \<le> \<lceil>1 / x\<rceil>" by linarith
  show ?thesis
  proof (cases "1 \<le> x * 2")
    case True
    then have "\<lfloor>x * 2\<rfloor> = 1" using assms by linarith
    with True c show ?thesis by simp
  next
    case False
    then have "2 < 1 / x" using assms by (simp add: field_simps)
    then have "1 / (x * 2) \<le> 1 / x - 1" by (simp add: field_simps)
    then have "\<lceil>1 / (x * 2)\<rceil> \<le> \<lceil>1 / x - 1\<rceil>" by (rule ceiling_mono)
    then have "\<lceil>1 / (x * 2)\<rceil> < \<lceil>1 / x\<rceil>" by simp
    with False c assms show ?thesis by simp
  qed
qed

function ilog2 :: "real \<Rightarrow> int" where
  "ilog2 x =
     (if 2 \<le> x then ilog2 (x / 2) + 1
      else if 0 < x \<and> x < 1 then ilog2 (x * 2) - 1
      else 0)"
  by pat_completeness auto
termination
  by (relation "measure (\<lambda>x. if 1 \<le> x then nat \<lfloor>x\<rfloor> else nat \<lceil>1 / x\<rceil>)")
    (use ilog2_up ilog2_down in \<open>auto simp del: ceiling_divide_eq_div_numeral\<close>)

declare ilog2.simps [simp del]

definition round_half_even :: "real \<Rightarrow> int" where
  "round_half_even y =
     (let f = \<lfloor>y\<rfloor>; d = y - of_int f
      in if d < 1 / 2 then f else if 1 / 2 < d then f + 1 else if even f then f else f + 1)"

definition round64 :: "real \<Rightarrow> num" where
  "round64 x =
     (if x = 0 then Num 0
      else
        (let e = max (ilog2 \<bar>x\<bar>) (- 1022);
             ulp = pow2 (e - 52);
             r = of_int (round_half_even (x / ulp)) * ulp
         in if pow2 1024 \<le> \<bar>r\<bar> then signed_inf (0 < r) else Num r))"

definition u64 :: real where
  \<comment> \<open>the unit roundoff of binary64, half the distance from 1 to the next number\<close>
  "u64 = 1 / 2 ^ 53"

definition mul64 :: "num \<Rightarrow> num \<Rightarrow> num" where
  \<comment> \<open>\<^verbatim>\<open>*\<close> in binary64: the product of two finite numbers, rounded\<close>
  "mul64 a b = (case (a, b) of (Num x, Num y) \<Rightarrow> round64 (x * y) | _ \<Rightarrow> num_mul a b)"

text \<open>The arithmetic operators of the source, written as such in the numerical
  algorithms below.\<close>

instantiation num :: "{plus, minus, uminus, times, inverse, abs}"
begin
definition plus_num :: "num \<Rightarrow> num \<Rightarrow> num" where "plus_num = num_add"
definition minus_num :: "num \<Rightarrow> num \<Rightarrow> num" where "minus_num = num_sub"
definition uminus_num :: "num \<Rightarrow> num" where "uminus_num = num_neg"
definition times_num :: "num \<Rightarrow> num \<Rightarrow> num" where "times_num = num_mul"
definition divide_num :: "num \<Rightarrow> num \<Rightarrow> num" where "divide_num = num_div"
definition inverse_num :: "num \<Rightarrow> num" where "inverse_num = num_div (Num 1)"
definition abs_num :: "num \<Rightarrow> num" where "abs_num = num_abs"
instance ..
end

definition num_ge :: "num \<Rightarrow> num \<Rightarrow> bool" where
  "num_ge x y = num_le y x"

section \<open>Tokens and the static tables (parser)\<close>

datatype TokenType =
  NUMBER | OPERATOR | FUNCTION | LPAREN | RPAREN | COMMA | CONSTANT | VARIABLE

text \<open>A token is \<^verbatim>\<open>{ type, value }\<close>; the value is a number for NUMBER tokens and a
  string for all others.\<close>

datatype jsvalue = NumV num | StrV jsstring

datatype token = Token (ttype: TokenType) (tvalue: jsvalue)

text \<open>The non-ASCII symbols of the parser's tables, by code unit.\<close>

definition MINUS_SIGN :: jsstring where "MINUS_SIGN = [0x2212]"
definition TIMES_SIGN :: jsstring where "TIMES_SIGN = [0xD7]"
definition DIVISION_SIGN :: jsstring where "DIVISION_SIGN = [0xF7]"
definition X_SUP_Y :: jsstring where "X_SUP_Y = [0x78, 0x2B8]"
definition SUP_MINUS_ONE :: jsstring where "SUP_MINUS_ONE = [0x207B, 0xB9]"
definition SQUARE_ROOT :: jsstring where "SQUARE_ROOT = [0x221A]"
definition CUBE_ROOT :: jsstring where "CUBE_ROOT = [0x221B]"
definition FOURTH_ROOT :: jsstring where "FOURTH_ROOT = [0x221C]"
definition GREEK_PI :: jsstring where "GREEK_PI = [0x3C0]"

datatype assoc = left | right

datatype opinfo = OpInfo (precedence: nat) (associativity: assoc) (op_args: nat)

text \<open>
  The tables are association lists in the order of the object literals, which is the
  order \<^verbatim>\<open>for (... in ...)\<close> enumerates their keys. A lookup \<^verbatim>\<open>TABLE[key]\<close> is
  \<open>map_of\<close>; a key that is not in the table gives \<^verbatim>\<open>undefined\<close> (\<open>None\<close>).
\<close>

definition OPERATORS :: "(jsstring \<times> opinfo) list" where
  "OPERATORS =
    [(str ''+'', OpInfo 1 left 2),
     (MINUS_SIGN, OpInfo 1 left 2),
     (str ''-'', OpInfo 1 left 2),
     (TIMES_SIGN, OpInfo 2 left 2),
     (str ''*'', OpInfo 2 left 2),
     (DIVISION_SIGN, OpInfo 2 left 2),
     (str ''/'', OpInfo 2 left 2),
     (str ''^'', OpInfo 3 right 2),
     (X_SUP_Y, OpInfo 3 right 2),
     (str ''%'', OpInfo 2 left 2)]"

text \<open>Of a function's entry only \<^verbatim>\<open>args\<close> is ever read.\<close>

definition FUNCTIONS :: "(jsstring \<times> nat) list" where
  "FUNCTIONS =
    [(str ''sin'', 1), (str ''cos'', 1), (str ''tan'', 1),
     (str ''sin'' @ SUP_MINUS_ONE, 1), (str ''cos'' @ SUP_MINUS_ONE, 1),
     (str ''tan'' @ SUP_MINUS_ONE, 1),
     (str ''asin'', 1), (str ''acos'', 1), (str ''atan'', 1),
     (str ''sinh'', 1), (str ''cosh'', 1), (str ''tanh'', 1),
     (str ''log'', 1), (str ''ln'', 1),
     (SQUARE_ROOT, 1), (str ''sqrt'', 1), (CUBE_ROOT, 1), (FOURTH_ROOT, 1),
     (str ''abs'', 1), (str ''Abs'', 1)]"

definition CONSTANTS :: "(jsstring \<times> num) list" where
  "CONSTANTS =
    [(GREEK_PI, Math_PI), (str ''pi'', Math_PI), (str ''e'', Math_E), (str ''E'', Math_E)]"

section \<open>Tokenizer\<close>

definition is_whitespace :: "jschar \<Rightarrow> bool" where
  \<comment> \<open>the class \<^verbatim>\<open>\s\<close> of the regular expression\<close>
  "is_whitespace c =
     ((9 \<le> c \<and> c \<le> 13) \<or> c = 0x20 \<or> c = 0xA0 \<or> c = 0x1680
      \<or> (0x2000 \<le> c \<and> c \<le> 0x200A) \<or> c = 0x2028 \<or> c = 0x2029 \<or> c = 0x202F
      \<or> c = 0x205F \<or> c = 0x3000 \<or> c = 0xFEFF)"

definition is_digit :: "jschar \<Rightarrow> bool" where
  "is_digit c = (48 \<le> c \<and> c \<le> 57)"

definition is_number_char :: "jschar \<Rightarrow> bool" where
  "is_number_char c = (is_digit c \<or> c = 46)"

definition is_letter :: "jschar \<Rightarrow> bool" where
  "is_letter c = ((65 \<le> c \<and> c \<le> 90) \<or> (97 \<le> c \<and> c \<le> 122))"

definition digits_value :: "jsstring \<Rightarrow> real" where
  "digits_value ds = foldl (\<lambda>acc c. 10 * acc + real (c - 48)) 0 ds"

definition parseFloat :: "jsstring \<Rightarrow> num" where
  \<comment> \<open>\<^verbatim>\<open>parseFloat\<close> on the strings the tokenizer gives it, made of digits and dots:
      the longest prefix \<open>digits [. digits]\<close> is read; NaN when it has no digit\<close>
  "parseFloat s =
     (let whole = takeWhile is_digit s;
          rest = dropWhile is_digit s;
          frac = (case rest of [] \<Rightarrow> [] | c # r \<Rightarrow> if c = 46 then takeWhile is_digit r else [])
      in if whole = [] \<and> frac = [] then NaN
         else Num (digits_value whole + digits_value frac / 10 ^ length frac))"

definition substr :: "jsstring \<Rightarrow> nat \<Rightarrow> nat \<Rightarrow> jsstring" where
  "substr s i n = take n (drop i s)"

fun first_match :: "jsstring list \<Rightarrow> jsstring \<Rightarrow> nat \<Rightarrow> jsstring option" where
  \<comment> \<open>the \<^verbatim>\<open>for ... in\<close> loop over a table's keys, left at the first key found at \<open>i\<close>\<close>
  "first_match [] expression i = None"
| "first_match (name # names) expression i =
     (if substr expression i (length name) = name then Some name
      else first_match names expression i)"

lemma first_match_mem: "first_match names e i = Some n \<Longrightarrow> n \<in> set names"
  by (induction names) (auto split: if_splits)

lemma FUNCTIONS_nonempty: "n \<in> set (map fst FUNCTIONS) \<Longrightarrow> 0 < length n"
  by (auto simp: FUNCTIONS_def str_def SUP_MINUS_ONE_def SQUARE_ROOT_def CUBE_ROOT_def
      FOURTH_ROOT_def)

lemma CONSTANTS_nonempty: "n \<in> set (map fst CONSTANTS) \<Longrightarrow> 0 < length n"
  by (auto simp: CONSTANTS_def str_def GREEK_PI_def)

lemma first_match_FUNCTIONS: "first_match (map fst FUNCTIONS) e i = Some n \<Longrightarrow> 0 < length n"
  using first_match_mem FUNCTIONS_nonempty by blast

lemma first_match_CONSTANTS: "first_match (map fst CONSTANTS) e i = Some n \<Longrightarrow> 0 < length n"
  using first_match_mem CONSTANTS_nonempty by blast

lemma number_run_nonempty:
  "i < length e \<Longrightarrow> is_number_char (e ! i) \<Longrightarrow> 0 < length (takeWhile is_number_char (drop i e))"
  by (cases "drop i e") (auto simp: hd_drop_conv_nth dest: arg_cong [where f = hd])

lemma advance_number:
  "i < length e \<Longrightarrow> is_number_char (e ! i) \<Longrightarrow>
   length e - (i + length (takeWhile is_number_char (drop i e))) < length e - i"
  using number_run_nonempty [of i e] by linarith

lemma advance_function:
  "i < length e \<Longrightarrow> first_match (map fst FUNCTIONS) e i = Some n \<Longrightarrow>
   length e - (i + length n) < length e - i"
  using first_match_FUNCTIONS [of e i n] by linarith

lemma advance_constant:
  "i < length e \<Longrightarrow> first_match (map fst CONSTANTS) e i = Some n \<Longrightarrow>
   length e - (i + length n) < length e - i"
  using first_match_CONSTANTS [of e i n] by linarith

function tokenize_loop :: "jsstring \<Rightarrow> nat \<Rightarrow> token list \<Rightarrow> token list" where
  "tokenize_loop expression i tokens =
    (if i < length expression then
       (let char = expression ! i in
        if is_number_char char then
          (let num = takeWhile is_number_char (drop i expression) in
           tokenize_loop expression (i + length num)
             (tokens @ [Token NUMBER (NumV (parseFloat num))]))
        else
          (case first_match (map fst FUNCTIONS) expression i of
             Some funcName \<Rightarrow>
               tokenize_loop expression (i + length funcName)
                 (tokens @ [Token FUNCTION (StrV funcName)])
           | None \<Rightarrow>
          (case first_match (map fst CONSTANTS) expression i of
             Some constName \<Rightarrow>
               tokenize_loop expression (i + length constName)
                 (tokens @ [Token CONSTANT (StrV constName)])
           | None \<Rightarrow>
          if map_of OPERATORS [char] \<noteq> None then
            (if ([char] = str ''-'' \<or> [char] = MINUS_SIGN) \<and>
                (i = 0 \<or> tokens = [] \<or> ttype (last tokens) = OPERATOR
                 \<or> ttype (last tokens) = LPAREN)
             then tokenize_loop expression (i + 1)
                    (tokens @ [Token NUMBER (NumV (Num (- 1))), Token OPERATOR (StrV TIMES_SIGN)])
             else tokenize_loop expression (i + 1) (tokens @ [Token OPERATOR (StrV [char])]))
          else if [char] = str ''('' then
            tokenize_loop expression (i + 1) (tokens @ [Token LPAREN (StrV [char])])
          else if [char] = str '')'' then
            tokenize_loop expression (i + 1) (tokens @ [Token RPAREN (StrV [char])])
          else if [char] = str '','' then
            tokenize_loop expression (i + 1) (tokens @ [Token COMMA (StrV [char])])
          else if is_letter char then
            tokenize_loop expression (i + 1) (tokens @ [Token VARIABLE (StrV [char])])
          else tokenize_loop expression (i + 1) tokens)))
     else tokens)"
  by pat_completeness auto
termination
  by (relation "measure (\<lambda>(e, i, ts). length e - i)")
    (auto intro: advance_number advance_function advance_constant)

declare tokenize_loop.simps [simp del]

definition tokenize :: "jsstring \<Rightarrow> token list" where
  "tokenize expression = tokenize_loop (filter (\<lambda>c. \<not> is_whitespace c) expression) 0 []"

section \<open>Errors\<close>

text \<open>
  Every \<^verbatim>\<open>throw new Error(message)\<close> of the source is a constructor, named after its
  message. \<open>TypeError\<close> is the engine's own error for reading a property of
  \<^verbatim>\<open>undefined\<close>. The integrator and the solver wrap the error they catch
  (\<^verbatim>\<open>`Integration error: ${error.message}`\<close>).
\<close>

datatype error =
    MismatchedParentheses
  | TypeError
  | DivisionByZero
  | InvalidDomain jsstring
  | FactorialRequiresNonNegativeInteger
  | PermutationRequiresIntegers
  | PermutationRequiresNonNegative
  | CombinationRequiresIntegers
  | CombinationRequiresNonNegative
  | UnknownOperator jsvalue
  | UnknownConstant jsvalue
  | UndefinedVariable jsvalue
  | InsufficientOperands
  | UnknownFunction jsvalue
  | InsufficientArguments jsvalue
  | UnknownTokenType TokenType
  | InvalidExpression nat
  | InvalidFunctionType
  | BoundsMustBeFinite
  | SingularityAtBounds
  | NonFiniteValue
  | IntegrationError error
  | DifferentSignsRequired
  | DerivativeTooSmall
  | NewtonDidNotConverge
  | SecantDivisionByZero
  | SecantDidNotConverge
  | BrentDidNotConverge
  | BisectionRequiresBounds
  | SolverError error

section \<open>Parser: infix tokens to RPN (shunting yard)\<close>

text \<open>
  The output queue is a list in order. The operator stack is a list whose head is the
  top of the stack (the last element of the source's array).
\<close>

definition lookup_operator :: "jsvalue \<Rightarrow> opinfo option" where
  \<comment> \<open>\<^verbatim>\<open>OPERATORS[token.value]\<close>, for the keys the table itself holds and for the strings
      that are no property of it at all. The properties an object literal inherits
      (\<^verbatim>\<open>constructor\<close>, \<^verbatim>\<open>toString\<close>, ...) are not modelled: for such a string the source finds
      a value without precedence, the model nothing. No operator token of the tokenizer
      holds such a string (\<open>tokenize_known_operators\<close> below), and what is proved of the
      parser on arbitrary token lists assumes \<open>known_operators\<close>\<close>
  "lookup_operator v = (case v of StrV s \<Rightarrow> map_of OPERATORS s | NumV _ \<Rightarrow> None)"

fun pop_until_lparen :: "token list \<Rightarrow> token list \<Rightarrow> token list \<times> token list" where
  \<comment> \<open>\<^verbatim>\<open>while (stack.length > 0 && top.type !== LPAREN) output.push(stack.pop())\<close>\<close>
  "pop_until_lparen output [] = (output, [])"
| "pop_until_lparen output (topToken # operatorStack) =
     (if ttype topToken \<noteq> LPAREN then pop_until_lparen (output @ [topToken]) operatorStack
      else (output, topToken # operatorStack))"

definition pops :: "opinfo \<Rightarrow> opinfo \<Rightarrow> bool" where
  \<comment> \<open>the condition of the operator case under which the stack top \<open>op2\<close> is popped\<close>
  "pops op1 op2 =
     ((associativity op1 = left \<and> precedence op1 \<le> precedence op2) \<or>
      (associativity op1 = right \<and> precedence op1 < precedence op2))"

fun pop_operators ::
  "opinfo option \<Rightarrow> token list \<Rightarrow> token list \<Rightarrow> error + (token list \<times> token list)" where
  \<comment> \<open>the \<^verbatim>\<open>while\<close> loop of the operator case; \<open>op1\<close> and \<open>op2\<close> may be
      \<^verbatim>\<open>undefined\<close>, and reading their fields then throws\<close>
  "pop_operators op1 output [] = Inr (output, [])"
| "pop_operators op1 output (topToken # operatorStack) =
     (if ttype topToken \<noteq> OPERATOR then Inr (output, topToken # operatorStack)
      else case op1 of
        None \<Rightarrow> Inl TypeError
      | Some o1 \<Rightarrow>
          (case lookup_operator (tvalue topToken) of
             None \<Rightarrow> Inl TypeError
           | Some o2 \<Rightarrow>
               if pops o1 o2 then pop_operators op1 (output @ [topToken]) operatorStack
               else Inr (output, topToken # operatorStack)))"

fun parse_token ::
  "token \<Rightarrow> token list \<times> token list \<Rightarrow> error + (token list \<times> token list)" where
  \<comment> \<open>the body of the \<^verbatim>\<open>for\<close> loop: the \<^verbatim>\<open>switch\<close> on the token's type\<close>
  "parse_token token (output, operatorStack) =
     (case ttype token of
        NUMBER \<Rightarrow> Inr (output @ [token], operatorStack)
      | CONSTANT \<Rightarrow> Inr (output @ [token], operatorStack)
      | VARIABLE \<Rightarrow> Inr (output @ [token], operatorStack)
      | FUNCTION \<Rightarrow> Inr (output, token # operatorStack)
      | COMMA \<Rightarrow> Inr (pop_until_lparen output operatorStack)
      | OPERATOR \<Rightarrow>
          (case pop_operators (lookup_operator (tvalue token)) output operatorStack of
             Inl e \<Rightarrow> Inl e
           | Inr (out, stk) \<Rightarrow> Inr (out, token # stk))
      | LPAREN \<Rightarrow> Inr (output, token # operatorStack)
      | RPAREN \<Rightarrow>
          (case pop_until_lparen output operatorStack of
             (out, []) \<Rightarrow> Inl MismatchedParentheses
           | (out, lparen # stk) \<Rightarrow>
               (case stk of
                  [] \<Rightarrow> Inr (out, stk)
                | f # stk' \<Rightarrow>
                    if ttype f = FUNCTION then Inr (out @ [f], stk') else Inr (out, stk))))"

fun parse_loop ::
  "token list \<Rightarrow> token list \<times> token list \<Rightarrow> error + (token list \<times> token list)" where
  "parse_loop [] st = Inr st"
| "parse_loop (token # tokens) st =
     (case parse_token token st of Inl e \<Rightarrow> Inl e | Inr st' \<Rightarrow> parse_loop tokens st')"

fun pop_remaining :: "token list \<Rightarrow> token list \<Rightarrow> error + token list" where
  \<comment> \<open>the final \<^verbatim>\<open>while\<close> loop\<close>
  "pop_remaining output [] = Inr output"
| "pop_remaining output (token # operatorStack) =
     (if ttype token = LPAREN \<or> ttype token = RPAREN then Inl MismatchedParentheses
      else pop_remaining (output @ [token]) operatorStack)"

definition parseToRPN :: "token list \<Rightarrow> error + token list" where
  "parseToRPN tokens =
     (case parse_loop tokens ([], []) of
        Inl e \<Rightarrow> Inl e
      | Inr (output, operatorStack) \<Rightarrow> pop_remaining output operatorStack)"

definition parse :: "jsstring \<Rightarrow> error + token list" where
  "parse expression = parseToRPN (tokenize expression)"

section \<open>MathUtils\<close>

function factorial_loop :: "real \<Rightarrow> real \<Rightarrow> num \<Rightarrow> num" where
  \<comment> \<open>\<^verbatim>\<open>for (let i = 2; i <= n; i++) result *= i\<close>, from the current \<open>i\<close>; the counter
      stays below 171 and is exact, the product is rounded at every step\<close>
  "factorial_loop i n result =
     (if i \<le> n then factorial_loop (i + 1) n (mul64 result (Num i)) else result)"
  by pat_completeness auto
termination
  by (relation "measure (\<lambda>(i, n, r). nat \<lceil>n + 1 - i\<rceil>)") (auto intro: nat_mono_iff [THEN iffD2], linarith)

declare factorial_loop.simps [simp del]

definition factorial :: "num \<Rightarrow> error + num" where
  "factorial n =
     (if \<not> isInteger n \<or> num_less n (Num 0) then Inl FactorialRequiresNonNegativeInteger
      else if num_eq n (Num 0) \<or> num_eq n (Num 1) then Inr (Num 1)
      else if num_gt n (Num 170) then Inr Infinity
      else case n of
        Num r \<Rightarrow> Inr (factorial_loop 2 r (Num 1))
      | _ \<Rightarrow> Inr NaN \<comment> \<open>not reached: an integer is finite\<close>)"

text \<open>
  The loops of \<open>permutation\<close> and \<open>combination\<close> are on the idealised numbers; no
  property below is about them.
\<close>

function permutation_loop :: "real \<Rightarrow> real \<Rightarrow> real \<Rightarrow> real" where
  \<comment> \<open>\<^verbatim>\<open>for (let i = n; i > n - r; i--) result *= i\<close>, with \<open>low = n - r\<close>\<close>
  "permutation_loop i low result =
     (if low < i then permutation_loop (i - 1) low (result * i) else result)"
  by pat_completeness auto
termination
  by (relation "measure (\<lambda>(i, low, r). nat \<lceil>i - low\<rceil>)") (auto, linarith)

declare permutation_loop.simps [simp del]

definition permutation :: "num \<Rightarrow> num \<Rightarrow> error + num" where
  "permutation n r =
     (if \<not> isInteger n \<or> \<not> isInteger r then Inl PermutationRequiresIntegers
      else if num_less n (Num 0) \<or> num_less r (Num 0) then Inl PermutationRequiresNonNegative
      else if num_gt r n then Inr (Num 0)
      else if num_eq r (Num 0) then Inr (Num 1)
      else case (n, r) of
        (Num n', Num r') \<Rightarrow> Inr (Num (permutation_loop n' (n' - r') 1))
      | _ \<Rightarrow> Inr NaN \<comment> \<open>not reached: integers are finite\<close>)"

function combination_loop :: "real \<Rightarrow> real \<Rightarrow> real \<Rightarrow> real \<Rightarrow> real" where
  \<comment> \<open>\<^verbatim>\<open>for (let i = 0; i < r; i++) { result *= (n - i); result /= (i + 1); }\<close>\<close>
  "combination_loop i r n result =
     (if i < r then combination_loop (i + 1) r n (result * (n - i) / (i + 1)) else result)"
  by pat_completeness auto
termination
  by (relation "measure (\<lambda>(i, r, n, res). nat \<lceil>r - i\<rceil>)") (auto, linarith)

declare combination_loop.simps [simp del]

definition Math_round :: "real \<Rightarrow> real" where
  "Math_round x = of_int \<lfloor>x + 1 / 2\<rfloor>"

definition combination :: "num \<Rightarrow> num \<Rightarrow> error + num" where
  "combination n r =
     (if \<not> isInteger n \<or> \<not> isInteger r then Inl CombinationRequiresIntegers
      else if num_less n (Num 0) \<or> num_less r (Num 0) then Inl CombinationRequiresNonNegative
      else if num_gt r n then Inr (Num 0)
      else if num_eq r (Num 0) \<or> num_eq r n then Inr (Num 1)
      else case (n, r) of
        (Num n', Num r') \<Rightarrow>
          (let r'' = (if n' - r' < r' then n' - r' else r')
           in Inr (Num (Math_round (combination_loop 0 r'' n' 1))))
      | _ \<Rightarrow> Inr NaN \<comment> \<open>not reached: integers are finite\<close>)"

section \<open>Evaluator\<close>

definition toRadians :: "num \<Rightarrow> num" where
  "toRadians degrees = num_mul degrees (Num (pi / 180))"

definition toDegrees :: "num \<Rightarrow> num" where
  "toDegrees radians = num_mul radians (Num (180 / pi))"

definition gradiansToRadians :: "num \<Rightarrow> num" where
  "gradiansToRadians gradians = num_mul gradians (Num (pi / 200))"

definition applyAngleUnit :: "num \<Rightarrow> jsstring \<Rightarrow> num" where
  "applyAngleUnit v angleUnit =
     (if angleUnit = str ''DEG'' then toRadians v
      else if angleUnit = str ''RAD'' then v
      else if angleUnit = str ''GRAD'' then gradiansToRadians v
      else v)"

definition applyInverseAngleUnit :: "num \<Rightarrow> jsstring \<Rightarrow> num" where
  "applyInverseAngleUnit v angleUnit =
     (if angleUnit = str ''DEG'' then toDegrees v
      else if angleUnit = str ''RAD'' then v
      else if angleUnit = str ''GRAD'' then num_mul v (Num (200 / pi))
      else v)"

text \<open>
  The \<^verbatim>\<open>case\<close> labels of \<^verbatim>\<open>evaluateOperation\<close> that are not ASCII, with the code
  units the evaluator's source file holds. They are not the code units of the symbols
  in the parser's tables: the evaluator's file holds, for each symbol, the characters
  that the symbol's UTF-8 bytes give when read in a one-byte encoding (for the
  multiplication sign U+00D7, the two characters U+221A U+00F3).
\<close>

definition CASE_MINUS :: jsstring where "CASE_MINUS = [0x201A, 0xE0, 0xED]"
definition CASE_TIMES :: jsstring where "CASE_TIMES = [0x221A, 0xF3]"
definition CASE_DIVIDE :: jsstring where "CASE_DIVIDE = [0x221A, 0x2211]"
definition CASE_X_SUP_Y :: jsstring where "CASE_X_SUP_Y = [0x78, 0xA0, 0x220F]"
definition CASE_SUP_MINUS_ONE :: jsstring where
  "CASE_SUP_MINUS_ONE = [0x201A, 0xC5, 0xAA, 0xAC, 0x3C0]"
definition CASE_SQUARE_ROOT :: jsstring where "CASE_SQUARE_ROOT = [0x201A, 0xE0, 0xF6]"
definition CASE_CUBE_ROOT :: jsstring where "CASE_CUBE_ROOT = [0x201A, 0xE0, 0xF5]"
definition CASE_FOURTH_ROOT :: jsstring where "CASE_FOURTH_ROOT = [0x201A, 0xE0, 0xFA]"

definition arg :: "num list \<Rightarrow> nat \<Rightarrow> num" where
  \<comment> \<open>\<^verbatim>\<open>args[k]\<close>; beyond the array it is \<^verbatim>\<open>undefined\<close>\<close>
  "arg args k = (if k < length args then args ! k else NaN)"

definition is_case :: "jsvalue \<Rightarrow> jsstring list \<Rightarrow> bool" where
  \<comment> \<open>the \<^verbatim>\<open>switch\<close> compares with \<^verbatim>\<open>===\<close>: a number equals no label\<close>
  "is_case operator labels = (operator \<in> set (map StrV labels))"

definition evaluateOperation :: "jsvalue \<Rightarrow> num list \<Rightarrow> jsstring \<Rightarrow> error + num" where
  "evaluateOperation operator args angleUnit =
     (if is_case operator [str ''+''] then Inr (num_add (arg args 0) (arg args 1))
      else if is_case operator [CASE_MINUS, str ''-''] then
        Inr (num_sub (arg args 0) (arg args 1))
      else if is_case operator [CASE_TIMES, str ''*''] then
        Inr (num_mul (arg args 0) (arg args 1))
      else if is_case operator [CASE_DIVIDE, str ''/''] then
        (if num_eq (arg args 1) (Num 0) then Inl DivisionByZero
         else Inr (num_div (arg args 0) (arg args 1)))
      else if is_case operator [str ''^'', CASE_X_SUP_Y] then
        Inr (Math_pow (arg args 0) (arg args 1))
      else if is_case operator [str ''%''] then Inr (num_rem (arg args 0) (arg args 1))
      else if is_case operator [str ''sin''] then
        Inr (Math_sin (applyAngleUnit (arg args 0) angleUnit))
      else if is_case operator [str ''cos''] then
        Inr (Math_cos (applyAngleUnit (arg args 0) angleUnit))
      else if is_case operator [str ''tan''] then
        Inr (Math_tan (applyAngleUnit (arg args 0) angleUnit))
      else if is_case operator [str ''sin'' @ CASE_SUP_MINUS_ONE, str ''asin''] then
        Inr (applyInverseAngleUnit (Math_asin (arg args 0)) angleUnit)
      else if is_case operator [str ''cos'' @ CASE_SUP_MINUS_ONE, str ''acos''] then
        Inr (applyInverseAngleUnit (Math_acos (arg args 0)) angleUnit)
      else if is_case operator [str ''tan'' @ CASE_SUP_MINUS_ONE, str ''atan''] then
        Inr (applyInverseAngleUnit (Math_atan (arg args 0)) angleUnit)
      else if is_case operator [str ''sinh''] then Inr (Math_sinh (arg args 0))
      else if is_case operator [str ''cosh''] then Inr (Math_cosh (arg args 0))
      else if is_case operator [str ''tanh''] then Inr (Math_tanh (arg args 0))
      else if is_case operator [str ''log''] then
        (if num_le (arg args 0) (Num 0) then Inl (InvalidDomain (str ''log''))
         else Inr (Math_log10 (arg args 0)))
      else if is_case operator [str ''ln''] then
        (if num_le (arg args 0) (Num 0) then Inl (InvalidDomain (str ''ln''))
         else Inr (Math_log (arg args 0)))
      else if is_case operator [CASE_SQUARE_ROOT, str ''sqrt''] then
        (if num_less (arg args 0) (Num 0) then Inl (InvalidDomain (str ''sqrt''))
         else Inr (Math_sqrt (arg args 0)))
      else if is_case operator [CASE_CUBE_ROOT] then Inr (Math_cbrt (arg args 0))
      else if is_case operator [CASE_FOURTH_ROOT] then
        Inr (Math_pow (arg args 0) (Num (1 / 4)))
      else if is_case operator [str ''abs'', str ''Abs''] then Inr (num_abs (arg args 0))
      else if is_case operator [str ''!''] then
        (if \<not> isInteger (arg args 0) \<or> num_less (arg args 0) (Num 0)
         then Inl FactorialRequiresNonNegativeInteger
         else factorial (arg args 0))
      else if is_case operator [str ''nPr''] then permutation (arg args 0) (arg args 1)
      else if is_case operator [str ''nCr''] then combination (arg args 0) (arg args 1)
      else Inl (UnknownOperator operator))"

text \<open>
  The evaluation context \<^verbatim>\<open>{ angleUnit, memory }\<close>, either field possibly absent, and
  the global \<^verbatim>\<open>window.calculatorState\<close> that \<^verbatim>\<open>evaluate\<close> falls back to, possibly
  absent too. A memory is an object from names to numbers; a name that is absent, or
  bound to \<^verbatim>\<open>null\<close> or \<^verbatim>\<open>undefined\<close>, is \<open>None\<close>.
\<close>

type_synonym memory = "jsstring \<rightharpoonup> num"

datatype evalContext = Context (ctx_angleUnit: "jsstring option") (ctx_memory: "memory option")

definition resolve_angleUnit :: "evalContext \<Rightarrow> evalContext option \<Rightarrow> jsstring" where
  \<comment> \<open>\<^verbatim>\<open>context.angleUnit || window.calculatorState?.angleUnit || 'DEG'\<close>;
      the empty string is falsy\<close>
  "resolve_angleUnit ctx calculatorState =
     (case ctx_angleUnit ctx of
        Some u \<Rightarrow> if u \<noteq> [] then u else
          (case Option.bind calculatorState ctx_angleUnit of
             Some u' \<Rightarrow> if u' \<noteq> [] then u' else str ''DEG''
           | None \<Rightarrow> str ''DEG'')
      | None \<Rightarrow>
          (case Option.bind calculatorState ctx_angleUnit of
             Some u' \<Rightarrow> if u' \<noteq> [] then u' else str ''DEG''
           | None \<Rightarrow> str ''DEG''))"

definition resolve_memory :: "evalContext \<Rightarrow> evalContext option \<Rightarrow> memory" where
  \<comment> \<open>\<^verbatim>\<open>context.memory || window.calculatorState?.memory || {}\<close>\<close>
  "resolve_memory ctx calculatorState =
     (case ctx_memory ctx of
        Some m \<Rightarrow> m
      | None \<Rightarrow> (case Option.bind calculatorState ctx_memory of Some m \<Rightarrow> m | None \<Rightarrow> Map.empty))"

definition lookup_memory :: "memory \<Rightarrow> jsvalue \<Rightarrow> num option" where
  "lookup_memory m v = (case v of StrV s \<Rightarrow> m s | NumV _ \<Rightarrow> None)"

definition lookup_constant :: "jsvalue \<Rightarrow> num option" where
  "lookup_constant v = (case v of StrV s \<Rightarrow> map_of CONSTANTS s | NumV _ \<Rightarrow> None)"

definition lookup_function :: "jsvalue \<Rightarrow> nat option" where
  "lookup_function v = (case v of StrV s \<Rightarrow> map_of FUNCTIONS s | NumV _ \<Rightarrow> None)"

text \<open>The evaluation stack is a list whose head is the top.\<close>

definition eval_token :: "jsstring \<Rightarrow> memory \<Rightarrow> token \<Rightarrow> num list \<Rightarrow> error + num list" where
  \<comment> \<open>the body of the \<^verbatim>\<open>for\<close> loop of \<^verbatim>\<open>evaluate\<close>\<close>
  "eval_token angleUnit mem token stack =
     (case ttype token of
        NUMBER \<Rightarrow>
          (case tvalue token of
             NumV n \<Rightarrow> Inr (n # stack)
           | StrV _ \<Rightarrow> Inr (NaN # stack)
               \<comment> \<open>a NUMBER token holds a number; a string on the stack is not modelled\<close>)
      | CONSTANT \<Rightarrow>
          (case lookup_constant (tvalue token) of
             Some c \<Rightarrow> Inr (c # stack)
           | None \<Rightarrow> Inl (UnknownConstant (tvalue token)))
      | VARIABLE \<Rightarrow>
          (case lookup_memory mem (tvalue token) of
             Some varValue \<Rightarrow> Inr (varValue # stack)
           | None \<Rightarrow> Inl (UndefinedVariable (tvalue token)))
      | OPERATOR \<Rightarrow>
          (case stack of
             b # a # rest \<Rightarrow>
               (case evaluateOperation (tvalue token) [a, b] angleUnit of
                  Inl e \<Rightarrow> Inl e
                | Inr result \<Rightarrow> Inr (result # rest))
           | _ \<Rightarrow> Inl InsufficientOperands)
      | FUNCTION \<Rightarrow>
          (case lookup_function (tvalue token) of
             None \<Rightarrow> Inl (UnknownFunction (tvalue token))
           | Some n \<Rightarrow>
               if length stack < n then Inl (InsufficientArguments (tvalue token))
               else
                 (case evaluateOperation (tvalue token) (rev (take n stack)) angleUnit of
                    Inl e \<Rightarrow> Inl e
                  | Inr funcResult \<Rightarrow> Inr (funcResult # drop n stack)))
      | t \<Rightarrow> Inl (UnknownTokenType t))"

fun eval_loop :: "jsstring \<Rightarrow> memory \<Rightarrow> token list \<Rightarrow> num list \<Rightarrow> error + num list" where
  "eval_loop angleUnit mem [] stack = Inr stack"
| "eval_loop angleUnit mem (token # rpnTokens) stack =
     (case eval_token angleUnit mem token stack of
        Inl e \<Rightarrow> Inl e
      | Inr stack' \<Rightarrow> eval_loop angleUnit mem rpnTokens stack')"

definition evaluate :: "token list \<Rightarrow> evalContext \<Rightarrow> evalContext option \<Rightarrow> error + num" where
  "evaluate rpnTokens ctx calculatorState =
     (case eval_loop (resolve_angleUnit ctx calculatorState)
             (resolve_memory ctx calculatorState) rpnTokens [] of
        Inl e \<Rightarrow> Inl e
      | Inr stack \<Rightarrow>
          if length stack \<noteq> 1 then Inl (InvalidExpression (length stack))
          else Inr (hd stack))"

definition evaluateExpression :: "jsstring \<Rightarrow> evalContext \<Rightarrow> evalContext option \<Rightarrow> error + num" where
  \<comment> \<open>the \<^verbatim>\<open>catch\<close> logs the error and throws it again\<close>
  "evaluateExpression expression ctx calculatorState =
     (case parse expression of
        Inl e \<Rightarrow> Inl e
      | Inr rpn \<Rightarrow> evaluate rpn ctx calculatorState)"

section \<open>The calculator state and programs over it\<close>

text \<open>
  \<^verbatim>\<open>window.calculatorState\<close> holds the angle unit and a reference to the memory object.
  Objects live in a heap, so that replacing the reference (\<^verbatim>\<open>state.memory = copy\<close>)
  and writing through it (\<^verbatim>\<open>state.memory[k] = v\<close>) are different things, as in the
  source. \<open>next_ref\<close> is the first reference not yet allocated.
\<close>

type_synonym ref = nat

record world =
  heap :: "ref \<Rightarrow> memory"
  next_ref :: ref
  state_angleUnit :: "jsstring option"
  state_memory :: ref

definition bindings :: "world \<Rightarrow> memory" where
  \<comment> \<open>the variable bindings a caller sees: the contents of \<^verbatim>\<open>calculatorState.memory\<close>\<close>
  "bindings w = heap w (state_memory w)"

text \<open>A computation may change the world and either returns a value or throws.\<close>

type_synonym 'a prog = "world \<Rightarrow> (error + 'a) \<times> world"

definition ret :: "'a \<Rightarrow> 'a prog" where
  "ret x w = (Inr x, w)"

definition throw :: "error \<Rightarrow> 'a prog" where
  "throw e w = (Inl e, w)"

definition seq :: "'a prog \<Rightarrow> ('a \<Rightarrow> 'b prog) \<Rightarrow> 'b prog" where
  \<comment> \<open>run \<open>m\<close>, then the rest with its value; an exception of \<open>m\<close> skips the rest\<close>
  "seq m k w = (case m w of (Inl e, w') \<Rightarrow> (Inl e, w') | (Inr x, w') \<Rightarrow> k x w')"

definition catch_wrap :: "(error \<Rightarrow> error) \<Rightarrow> 'a prog \<Rightarrow> 'a prog" where
  \<comment> \<open>\<^verbatim>\<open>try { m } catch (error) { throw new Error(`...${error.message}`) }\<close>\<close>
  "catch_wrap wrap m w = (case m w of (Inl e, w') \<Rightarrow> (Inl (wrap e), w') | (Inr x, w') \<Rightarrow> (Inr x, w'))"

section \<open>Binding a variable around one evaluation\<close>

definition evaluateWithState :: "jsstring \<Rightarrow> world \<Rightarrow> error + num" where
  "evaluateWithState expression w =
     (let state = Context (state_angleUnit w) (Some (heap w (state_memory w)))
      in evaluateExpression expression state (Some state))"

text \<open>
  The method \<^verbatim>\<open>String.prototype.toUpperCase\<close> belongs to the host. The functions that
  call it take it as their first argument, \<open>toUpperCase\<close>, and what is proved of them
  holds for every case mapping, or assumes its value at the one name in question.
  \<open>toUpperCase_ASCII\<close> is the method on the strings of ASCII characters (code units
  below 128), where it replaces the letters a to z by A to Z; it stands for the
  parameter where a concrete input is evaluated.
\<close>

definition toUpperCase_ASCII :: "jsstring \<Rightarrow> jsstring" where
  "toUpperCase_ASCII s = map (\<lambda>c. if 97 \<le> c \<and> c \<le> 122 then c - 32 else c) s"

definition createFunctionFromExpression ::
  "(jsstring \<Rightarrow> jsstring) \<Rightarrow> jsstring \<Rightarrow> jsstring \<Rightarrow> num \<Rightarrow> num prog" where
  \<comment> \<open>the function returned for \<open>expression\<close> and \<open>variable\<close>, applied to \<open>value\<close>.
      \<^verbatim>\<open>{ ...state.memory }\<close> allocates a copy; the assignment
      \<^verbatim>\<open>state.memory[variable.toUpperCase()] = value\<close> writes into the object
      \<^verbatim>\<open>state.memory\<close> refers to; both exits store the copy's reference\<close>
  "createFunctionFromExpression toUpperCase expression variable v w =
     (let originalMemory = next_ref w;
          w1 = w\<lparr>heap := (heap w)(originalMemory := heap w (state_memory w)),
                 next_ref := Suc (next_ref w)\<rparr>;
          w2 = w1\<lparr>heap := (heap w1)(state_memory w1 :=
                   (heap w1 (state_memory w1))(toUpperCase variable \<mapsto> v))\<rparr>
      in case evaluateWithState expression w2 of
           Inr result \<Rightarrow> (Inr result, w2\<lparr>state_memory := originalMemory\<rparr>)
         | Inl e \<Rightarrow> (Inl e, w2\<lparr>state_memory := originalMemory\<rparr>))"

section \<open>Integrator\<close>

fun adaptiveSimpson ::
  "(num \<Rightarrow> num prog) \<Rightarrow> num \<Rightarrow> num \<Rightarrow> num \<Rightarrow> num \<Rightarrow> num \<Rightarrow> num \<Rightarrow> num \<Rightarrow> nat \<Rightarrow> num prog" where
  "adaptiveSimpson f a b epsilon S fa fb fc depth =
     (let c = (a + b) / Num 2;
          h = b - a;
          d = (a + c) / Num 2;
          e = (c + b) / Num 2
      in seq (f d) (\<lambda>fd. seq (f e) (\<lambda>fe.
           if \<not> isFinite fd \<or> \<not> isFinite fe then throw NonFiniteValue
           else
             (let Sleft = (h / Num 12) * (fa + Num 4 * fd + fc);
                  Sright = (h / Num 12) * (fc + Num 4 * fe + fb);
                  S2 = Sleft + Sright
              in case depth of
                   0 \<Rightarrow> ret (S2 + (S2 - S) / Num 15)
                 | Suc depth' \<Rightarrow>
                     if num_le \<bar>S2 - S\<bar> (Num 15 * epsilon) then ret (S2 + (S2 - S) / Num 15)
                     else
                       seq (adaptiveSimpson f a c (epsilon / Num 2) Sleft fa fc fd depth')
                         (\<lambda>l. seq (adaptiveSimpson f c b (epsilon / Num 2) Sright fc fb fe depth')
                           (\<lambda>r. ret (l + r)))))))"


text \<open>
  The first argument of \<open>integrate\<close> is an expression string, a function, or a value
  of another type.
\<close>

datatype integrand =
  FromExpression jsstring | FromFunction "num \<Rightarrow> num prog" | NotAFunction

text \<open>The options object; an absent property takes its default. \<open>maxDepth\<close> and
  \<open>maxIterations\<close> are non-negative integers, as the interface specifies.\<close>

datatype integrateOptions =
  IntegrateOptions (io_tolerance: "num option") (io_maxDepth: "nat option")
    (io_variable: "jsstring option")

definition integrand_function ::
  "(jsstring \<Rightarrow> jsstring) \<Rightarrow> integrand \<Rightarrow> jsstring \<Rightarrow> (num \<Rightarrow> num prog) option" where
  "integrand_function toUpperCase func variable =
     (case func of
        FromExpression expression \<Rightarrow>
          Some (createFunctionFromExpression toUpperCase expression variable)
      | FromFunction g \<Rightarrow> Some g
      | NotAFunction \<Rightarrow> None)"

lemma num_gt_asym: "num_gt a b \<Longrightarrow> \<not> num_gt b a"
  by (cases a; cases b) (simp_all add: num_gt_def)

function integrate ::
  "(jsstring \<Rightarrow> jsstring) \<Rightarrow> integrand \<Rightarrow> num \<Rightarrow> num \<Rightarrow> integrateOptions \<Rightarrow> num prog" where
  "integrate toUpperCase func a b options w =
     (let tolerance = (case io_tolerance options of Some t \<Rightarrow> t | None \<Rightarrow> Num (1 / 10 ^ 8));
          maxDepth = (case io_maxDepth options of Some d \<Rightarrow> d | None \<Rightarrow> 20);
          variable = (case io_variable options of Some v \<Rightarrow> v | None \<Rightarrow> str ''x'')
      in case integrand_function toUpperCase func variable of
           None \<Rightarrow> throw InvalidFunctionType w
         | Some f \<Rightarrow>
             if \<not> isFinite a \<or> \<not> isFinite b then throw BoundsMustBeFinite w
             else if num_eq a b then ret (Num 0) w
             else if num_gt a b then
               (case integrate toUpperCase func b a options w of
                  (Inl e, w') \<Rightarrow> (Inl e, w')
                | (Inr r, w') \<Rightarrow> (Inr (- r), w'))
             else
               catch_wrap IntegrationError
                 (seq (f a) (\<lambda>fa. seq (f b) (\<lambda>fb. seq (f ((a + b) / Num 2)) (\<lambda>fc.
                    if \<not> isFinite fa \<or> \<not> isFinite fb \<or> \<not> isFinite fc
                    then throw SingularityAtBounds
                    else
                      (let h = b - a;
                           S = (h / Num 6) * (fa + Num 4 * fc + fb)
                       in adaptiveSimpson f a b tolerance S fa fb fc maxDepth))))) w)"
  by pat_completeness auto
termination
  by (relation "measure (\<lambda>(toUpperCase, func, a, b, options, w). if num_gt a b then 1 else 0)")
    (auto dest: num_gt_asym)

declare integrate.simps [simp del]
declare adaptiveSimpson.simps [simp del]

section \<open>Solver\<close>

fun bisection_loop ::
  "(num \<Rightarrow> num prog) \<Rightarrow> num \<Rightarrow> nat \<Rightarrow> num \<Rightarrow> num \<Rightarrow> num \<Rightarrow> num \<Rightarrow> num prog" where
  \<comment> \<open>\<^verbatim>\<open>while (iterations < maxIterations)\<close>, with the iterations that remain\<close>
  "bisection_loop f tolerance 0 a b fa fb = ret ((a + b) / Num 2)"
| "bisection_loop f tolerance (Suc n) a b fa fb =
     (let c = (a + b) / Num 2
      in seq (f c) (\<lambda>fc.
           if num_less \<bar>fc\<bar> tolerance \<or> num_less \<bar>b - a\<bar> tolerance then ret c
           else if num_less (fa * fc) (Num 0) then bisection_loop f tolerance n a c fa fc
           else bisection_loop f tolerance n c b fc fb))"

definition bisection :: "(num \<Rightarrow> num prog) \<Rightarrow> num \<Rightarrow> num \<Rightarrow> num \<Rightarrow> nat \<Rightarrow> num prog" where
  "bisection f a b tolerance maxIterations =
     seq (f a) (\<lambda>fa. seq (f b) (\<lambda>fb.
       if num_gt (fa * fb) (Num 0) then throw DifferentSignsRequired
       else if num_less \<bar>fa\<bar> tolerance then ret a
       else if num_less \<bar>fb\<bar> tolerance then ret b
       else bisection_loop f tolerance maxIterations a b fa fb))"

definition numerical_derivative :: "(num \<Rightarrow> num prog) \<Rightarrow> num \<Rightarrow> num \<Rightarrow> num prog" where
  \<comment> \<open>\<^verbatim>\<open>(x) => (f(x + h) - f(x - h)) / (2 * h)\<close>\<close>
  "numerical_derivative f h x =
     seq (f (x + h)) (\<lambda>f1. seq (f (x - h)) (\<lambda>f2. ret ((f1 - f2) / (Num 2 * h))))"

fun newton_loop ::
  "(num \<Rightarrow> num prog) \<Rightarrow> (num \<Rightarrow> num prog) \<Rightarrow> num \<Rightarrow> nat \<Rightarrow> num \<Rightarrow> num prog" where
  "newton_loop f df tolerance 0 x = throw NewtonDidNotConverge"
| "newton_loop f df tolerance (Suc n) x =
     seq (f x) (\<lambda>fx.
       if num_less \<bar>fx\<bar> tolerance then ret x
       else seq (df x) (\<lambda>dfx.
         if num_less \<bar>dfx\<bar> (Num (1 / 10 ^ 12)) then throw DerivativeTooSmall
         else
           (let xNew = x - fx / dfx
            in if num_less \<bar>xNew - x\<bar> tolerance then ret xNew
               else newton_loop f df tolerance n xNew)))"

definition newton ::
  "(num \<Rightarrow> num prog) \<Rightarrow> num \<Rightarrow> num \<Rightarrow> nat \<Rightarrow> (num \<Rightarrow> num prog) option \<Rightarrow> num \<Rightarrow> num prog" where
  "newton f x0 tolerance maxIterations derivative h =
     (let df = (case derivative of Some d \<Rightarrow> d | None \<Rightarrow> numerical_derivative f h)
      in newton_loop f df tolerance maxIterations x0)"

fun secant_loop :: "(num \<Rightarrow> num prog) \<Rightarrow> num \<Rightarrow> nat \<Rightarrow> num \<Rightarrow> num \<Rightarrow> num prog" where
  "secant_loop f tolerance 0 x0 x1 = throw SecantDidNotConverge"
| "secant_loop f tolerance (Suc n) x0 x1 =
     seq (f x0) (\<lambda>fx0. seq (f x1) (\<lambda>fx1.
       if num_less \<bar>fx1\<bar> tolerance then ret x1
       else if num_less \<bar>fx1 - fx0\<bar> (Num (1 / 10 ^ 12)) then throw SecantDivisionByZero
       else
         (let x2 = x1 - fx1 * (x1 - x0) / (fx1 - fx0)
          in if num_less \<bar>x2 - x1\<bar> tolerance then ret x2
             else secant_loop f tolerance n x1 x2)))"

definition secant :: "(num \<Rightarrow> num prog) \<Rightarrow> num \<Rightarrow> num \<Rightarrow> num \<Rightarrow> nat \<Rightarrow> num prog" where
  "secant f x0 x1 tolerance maxIterations = secant_loop f tolerance maxIterations x0 x1"


fun brent_loop ::
  "(num \<Rightarrow> num prog) \<Rightarrow> num \<Rightarrow> nat \<Rightarrow>
   num \<Rightarrow> num \<Rightarrow> num \<Rightarrow> num \<Rightarrow> num \<Rightarrow> num \<Rightarrow> num \<Rightarrow> num \<Rightarrow> num prog" where
  \<comment> \<open>the \<^verbatim>\<open>for\<close> loop, with the iterations that remain; each \<open>let\<close> that binds a
      name again is an assignment of the source\<close>
  "brent_loop f tolerance 0 a b c d e fa fb fc = throw BrentDidNotConverge"
| "brent_loop f tolerance (Suc n) a b c d e fa fb fc =
     (if num_less \<bar>fb\<bar> tolerance then ret b
      else
        (let (c, fc, d, e) =
               (if num_gt (fa * fb) (Num 0) then (a, fa, b - a, b - a) else (c, fc, d, e));
             (a, b, c, fa, fb, fc) =
               (if num_less \<bar>fc\<bar> \<bar>fb\<bar> then (b, c, b, fb, fc, fb) else (a, b, c, fa, fb, fc));
             tol1 = Num 2 * tolerance * \<bar>b\<bar> + tolerance / Num 2;
             xm = (c - b) / Num 2
         in if num_le \<bar>xm\<bar> tol1 \<or> num_eq fb (Num 0) then ret b
            else
              (let (d, e) =
                     (if num_ge \<bar>e\<bar> tol1 \<and> num_gt \<bar>fa\<bar> \<bar>fb\<bar> then
                        (let s = fb / fa;
                             (p, q) =
                               (if num_eq a c then (Num 2 * xm * s, Num 1 - s)
                                else
                                  (let q1 = fa / fc;
                                       q2 = fb / fc
                                   in (s * (Num 2 * xm * q1 * (q1 - q2) - (b - a) * (q2 - Num 1)),
                                       (q1 - Num 1) * (q2 - Num 1) * (s - Num 1))));
                             (p, q) = (if num_gt p (Num 0) then (p, - q) else (- p, q));
                             s_val = e;
                             e = d
                         in if num_less (Num 2 * p) (Num 3 * xm * q - \<bar>tol1 * q\<bar>) \<and>
                               num_less p \<bar>Num (1 / 2) * s_val * q\<bar>
                            then (p / q, e)
                            else (xm, xm))
                      else (xm, xm));
                   a = b;
                   fa = fb;
                   b = (if num_gt \<bar>d\<bar> tol1 then b + d
                        else b + (if num_gt xm (Num 0) then tol1 else - tol1))
               in seq (f b) (\<lambda>fb. brent_loop f tolerance n a b c d e fa fb fc))))"

definition brent :: "(num \<Rightarrow> num prog) \<Rightarrow> num \<Rightarrow> num \<Rightarrow> num \<Rightarrow> nat \<Rightarrow> num prog" where
  "brent f a b tolerance maxIterations =
     seq (f a) (\<lambda>fa. seq (f b) (\<lambda>fb.
       if num_gt (fa * fb) (Num 0) then throw DifferentSignsRequired
       else
         (let (a, b, fa, fb) =
                (if num_less \<bar>fa\<bar> \<bar>fb\<bar> then (b, a, fb, fa) else (a, b, fa, fb));
              c = a;
              fc = fa;
              d = b - a;
              e = d
          in brent_loop f tolerance maxIterations a b c d e fa fb fc)))"

datatype solveOptions =
  SolveOptions (so_method: "jsstring option") (so_bounds: "(num \<times> num) option")
    (so_tolerance: "num option") (so_maxIterations: "nat option")

definition solve_function ::
  "(jsstring \<Rightarrow> jsstring) \<Rightarrow> jsstring \<Rightarrow> jsstring \<Rightarrow> num \<Rightarrow> num prog" where
  \<comment> \<open>the closure \<^verbatim>\<open>f\<close> of \<^verbatim>\<open>solve\<close>, applied to \<open>value\<close>\<close>
  "solve_function toUpperCase expression variable v w =
     (let originalMemory = next_ref w;
          w1 = w\<lparr>heap := (heap w)(originalMemory := heap w (state_memory w)),
                 next_ref := Suc (next_ref w)\<rparr>;
          w2 = w1\<lparr>heap := (heap w1)(state_memory w1 :=
                   (heap w1 (state_memory w1))(toUpperCase variable \<mapsto> v))\<rparr>
      in case evaluateWithState expression w2 of
           Inr result \<Rightarrow> (Inr result, w2\<lparr>state_memory := originalMemory\<rparr>)
         | Inl e \<Rightarrow> (Inl e, w2\<lparr>state_memory := originalMemory\<rparr>))"

fun expand_search ::
  "(num \<Rightarrow> num prog) \<Rightarrow> num \<Rightarrow> nat \<Rightarrow> nat \<Rightarrow> (num \<times> num) option prog" where
  \<comment> \<open>\<^verbatim>\<open>for (let i = 1; i <= 10; i++)\<close>, with the iterations that remain and \<open>i\<close>;
      the result is the bracket found, if any\<close>
  "expand_search f initialGuess 0 i = ret None"
| "expand_search f initialGuess (Suc n) i =
     (let range = Num (real i * 10);
          a = initialGuess - range;
          b = initialGuess + range
      in seq (f a) (\<lambda>fa. seq (f b) (\<lambda>fb.
           if num_le (fa * fb) (Num 0) then ret (Some (a, b))
           else expand_search f initialGuess n (i + 1))))"

definition solve ::
  "(jsstring \<Rightarrow> jsstring) \<Rightarrow> jsstring \<Rightarrow> jsstring \<Rightarrow> num \<Rightarrow> solveOptions \<Rightarrow> num prog" where
  "solve toUpperCase expression variable initialGuess options =
     (let method = (case so_method options of Some m \<Rightarrow> m | None \<Rightarrow> str ''brent'');
          bounds = so_bounds options;
          tolerance = (case so_tolerance options of Some t \<Rightarrow> t | None \<Rightarrow> Num (1 / 10 ^ 8));
          maxIterations = (case so_maxIterations options of Some n \<Rightarrow> n | None \<Rightarrow> 100);
          f = solve_function toUpperCase expression variable
      in catch_wrap SolverError
           (if method = str ''bisection'' then
              (case bounds of
                 None \<Rightarrow> throw BisectionRequiresBounds
               | Some (a, b) \<Rightarrow> bisection f a b tolerance maxIterations)
            else if method = str ''newton'' then
              newton f initialGuess tolerance maxIterations None (Num (1 / 10 ^ 7))
            else if method = str ''secant'' then
              (let x1 = (case bounds of Some (a, b) \<Rightarrow> b | None \<Rightarrow> initialGuess + Num 1)
               in secant f initialGuess x1 tolerance maxIterations)
            else
              (let (a, b) = (case bounds of
                               Some ab \<Rightarrow> ab
                             | None \<Rightarrow> (initialGuess - Num 10, initialGuess + Num 10))
               in seq (f a) (\<lambda>fa. seq (f b) (\<lambda>fb.
                    if num_gt (fa * fb) (Num 0) then
                      seq (expand_search f initialGuess 10 1) (\<lambda>found.
                        case found of
                          Some (a', b') \<Rightarrow> brent f a' b' tolerance maxIterations
                        | None \<Rightarrow>
                            newton f initialGuess tolerance maxIterations None
                              (Num (1 / 10 ^ 7)))
                    else brent f a b tolerance maxIterations)))))"


section \<open>Evaluating the pipeline on concrete inputs\<close>

lemmas table_defs =
  OPERATORS_def FUNCTIONS_def CONSTANTS_def str_def MINUS_SIGN_def TIMES_SIGN_def
  DIVISION_SIGN_def X_SUP_Y_def SUP_MINUS_ONE_def SQUARE_ROOT_def CUBE_ROOT_def
  FOURTH_ROOT_def GREEK_PI_def

lemmas char_defs =
  is_whitespace_def is_digit_def is_number_char_def is_letter_def substr_def

lemmas label_defs =
  CASE_MINUS_def CASE_TIMES_def CASE_DIVIDE_def CASE_X_SUP_Y_def CASE_SUP_MINUS_ONE_def
  CASE_SQUARE_ROOT_def CASE_CUBE_ROOT_def CASE_FOURTH_ROOT_def

lemmas pipeline_defs =
  evaluateExpression_def parse_def parseToRPN_def tokenize_def tokenize_loop.simps
  evaluate_def eval_token_def
  evaluateOperation_def is_case_def arg_def lookup_operator_def lookup_function_def
  lookup_constant_def lookup_memory_def pops_def parseFloat_def digits_value_def
  num_eq_def num_le_def num_gt_def real_pow_def

section \<open>The operator case of the parser\<close>

text \<open>
  The condition of the specification, in its words: the stack top is an operator
  \<open>op2\<close> with (\<open>op1\<close> left-associative and precedence(\<open>op1\<close>) \<open>\<le>\<close> precedence(\<open>op2\<close>)) or
  (\<open>op1\<close> right-associative and precedence(\<open>op1\<close>) \<open><\<close> precedence(\<open>op2\<close>)).
\<close>

definition spec_pops :: "opinfo \<Rightarrow> token \<Rightarrow> bool" where
  "spec_pops op1 t =
     (ttype t = OPERATOR \<and>
      (case lookup_operator (tvalue t) of
         None \<Rightarrow> False
       | Some op2 \<Rightarrow>
           (associativity op1 = left \<and> precedence op1 \<le> precedence op2) \<or>
           (associativity op1 = right \<and> precedence op1 < precedence op2)))"

definition token_ok :: "token \<Rightarrow> bool" where
  "token_ok t = (ttype t = OPERATOR \<longrightarrow> lookup_operator (tvalue t) \<noteq> None)"

definition known_operators :: "token list \<Rightarrow> bool" where
  \<comment> \<open>every OPERATOR token holds a symbol of the table, as those of \<open>tokenize\<close> do\<close>
  "known_operators ts = list_all token_ok ts"

lemma pop_operators_takeWhile:
  "known_operators stk \<Longrightarrow>
   pop_operators (Some op1) out stk =
     Inr (out @ takeWhile (spec_pops op1) stk, dropWhile (spec_pops op1) stk)"
proof (induction stk arbitrary: out)
  case Nil
  show ?case by simp
next
  case (Cons t stk)
  from Cons.prems have known: "known_operators stk"
    and top: "ttype t = OPERATOR \<longrightarrow> lookup_operator (tvalue t) \<noteq> None"
    by (simp_all add: known_operators_def token_ok_def)
  show ?case
  proof (cases "ttype t = OPERATOR")
    case False
    then show ?thesis by (simp add: spec_pops_def)
  next
    case True
    with top obtain op2 where op2: "lookup_operator (tvalue t) = Some op2" by auto
    show ?thesis
      using True op2 Cons.IH [OF known] by (simp add: spec_pops_def pops_def)
  qed
qed

text \<open>
  C1. For an operator token \<open>op1\<close> met by \<open>parseToRPN\<close> in any state of the output and
  the operator stack, the operators \<open>op2\<close> on top of the stack are moved to the output
  for as long as (\<open>op1\<close> is left-associative and precedence(\<open>op1\<close>) \<open>\<le>\<close> precedence(\<open>op2\<close>))
  or (\<open>op1\<close> is right-associative and precedence(\<open>op1\<close>) \<open><\<close> precedence(\<open>op2\<close>)), and then
  \<open>op1\<close> is pushed; and the whole pipeline gives \<open>2+3*4 = 14\<close>, \<open>(2+3)*4 = 20\<close> and
  \<open>2^3^2 = 512\<close>, in every evaluation context.
\<close>

theorem C1_operator_case:
  "(ttype token = OPERATOR \<and> lookup_operator (tvalue token) = Some op1 \<and>
    known_operators operatorStack \<longrightarrow>
      parse_token token (output, operatorStack) =
        Inr (output @ takeWhile (spec_pops op1) operatorStack,
             token # dropWhile (spec_pops op1) operatorStack)) \<and>
   evaluateExpression (str ''2+3*4'') ctx calculatorState = Inr (Num 14) \<and>
   evaluateExpression (str ''(2+3)*4'') ctx calculatorState = Inr (Num 20) \<and>
   evaluateExpression (str ''2^3^2'') ctx calculatorState = Inr (Num 512)"
proof -
  have step: "parse_token token (output, operatorStack) =
      Inr (output @ takeWhile (spec_pops op1) operatorStack,
           token # dropWhile (spec_pops op1) operatorStack)"
    if "ttype token = OPERATOR" "lookup_operator (tvalue token) = Some op1"
      "known_operators operatorStack"
    using that by (simp add: pop_operators_takeWhile)
  have e1: "evaluateExpression (str ''2+3*4'') ctx calculatorState = Inr (Num 14)"
    by (simp add: pipeline_defs table_defs char_defs label_defs)
  have e2: "evaluateExpression (str ''(2+3)*4'') ctx calculatorState = Inr (Num 20)"
    by (simp add: pipeline_defs table_defs char_defs label_defs)
  have e3: "evaluateExpression (str ''2^3^2'') ctx calculatorState = Inr (Num 512)"
    by (simp add: pipeline_defs table_defs char_defs label_defs)
  from step e1 e2 e3 show ?thesis by blast
qed

theorem C1_operator_case_witness:
  "parse_token (Token OPERATOR (StrV (str ''+'')))
     ([Token NUMBER (NumV (Num 2)), Token NUMBER (NumV (Num 3))],
      [Token OPERATOR (StrV (str ''*'')), Token OPERATOR (StrV (str ''^'')),
       Token LPAREN (StrV (str ''(''))]) =
   Inr ([Token NUMBER (NumV (Num 2)), Token NUMBER (NumV (Num 3)),
         Token OPERATOR (StrV (str ''*'')), Token OPERATOR (StrV (str ''^''))],
        [Token OPERATOR (StrV (str ''+'')), Token LPAREN (StrV (str ''(''))]) \<and>
   evaluateExpression (str ''2^3^2'') (Context None None) None = Inr (Num 512)"
  using C1_operator_case [of "Token OPERATOR (StrV (str ''+''))" "OpInfo 1 left 2"
      "[Token OPERATOR (StrV (str ''*'')), Token OPERATOR (StrV (str ''^'')),
        Token LPAREN (StrV (str ''(''))]"
      "[Token NUMBER (NumV (Num 2)), Token NUMBER (NumV (Num 3))]"
      "Context None None" None]
  by (simp add: known_operators_def token_ok_def spec_pops_def lookup_operator_def table_defs)

section \<open>Unary minus\<close>

lemma first_match_head:
  "first_match names e i = Some n \<Longrightarrow> i < length e \<Longrightarrow> n \<noteq> [] \<Longrightarrow> hd n = e ! i"
proof (induction names)
  case Nil
  then show ?case by simp
next
  case (Cons name names)
  show ?case
  proof (cases "substr e i (length name) = name")
    case True
    with Cons.prems have n: "n = name" by simp
    from True have "hd name = hd (take (length name) (drop i e))" by (simp add: substr_def)
    also have "\<dots> = e ! i"
      using Cons.prems n by (cases name) (simp_all add: hd_drop_conv_nth)
    finally show ?thesis using n by simp
  next
    case False
    with Cons show ?thesis by simp
  qed
qed

lemma no_function_at:
  assumes "i < length e"
    and "e ! i \<notin> hd ` set (map fst FUNCTIONS)"
  shows "first_match (map fst FUNCTIONS) e i = None"
proof (cases "first_match (map fst FUNCTIONS) e i")
  case None
  then show ?thesis .
next
  case (Some n)
  then have mem: "n \<in> set (map fst FUNCTIONS)" by (rule first_match_mem)
  then have "n \<noteq> []" using FUNCTIONS_nonempty [of n] by auto
  then have "hd n = e ! i" by (rule first_match_head [OF Some assms(1)])
  with mem have "e ! i \<in> hd ` set (map fst FUNCTIONS)" by (metis imageI)
  with assms(2) show ?thesis by contradiction
qed

lemma no_constant_at:
  assumes "i < length e"
    and "e ! i \<notin> hd ` set (map fst CONSTANTS)"
  shows "first_match (map fst CONSTANTS) e i = None"
proof (cases "first_match (map fst CONSTANTS) e i")
  case None
  then show ?thesis .
next
  case (Some n)
  then have mem: "n \<in> set (map fst CONSTANTS)" by (rule first_match_mem)
  then have "n \<noteq> []" using CONSTANTS_nonempty [of n] by auto
  then have "hd n = e ! i" by (rule first_match_head [OF Some assms(1)])
  with mem have "e ! i \<in> hd ` set (map fst CONSTANTS)" by (metis imageI)
  with assms(2) show ?thesis by contradiction
qed

lemma FUNCTIONS_heads:
  "hd ` set (map fst FUNCTIONS) = {115, 99, 116, 97, 108, 0x221A, 0x221B, 0x221C, 65}"
  by (simp add: table_defs) blast

lemma CONSTANTS_heads: "hd ` set (map fst CONSTANTS) = {0x3C0, 112, 101, 69}"
  by (simp add: table_defs)

text \<open>
  In every input, a minus sign (ASCII or U+2212) at index 0, after no token at all, after
  an OPERATOR token or after an LPAREN token becomes the two tokens
  \<open>NUMBER -1\<close>, \<open>OPERATOR \<times>\<close>.
\<close>

lemma tokenize_loop_unary_minus:
  assumes "i < length e"
    and "e ! i = 45 \<or> e ! i = 0x2212"
    and "i = 0 \<or> tokens = [] \<or> ttype (last tokens) = OPERATOR \<or> ttype (last tokens) = LPAREN"
  shows "tokenize_loop e i tokens =
    tokenize_loop e (i + 1)
      (tokens @ [Token NUMBER (NumV (Num (- 1))), Token OPERATOR (StrV TIMES_SIGN)])"
proof -
  have "e ! i \<notin> hd ` set (map fst FUNCTIONS)"
    unfolding FUNCTIONS_heads using assms(2) by auto
  then have f: "first_match (map fst FUNCTIONS) e i = None"
    using assms(1) by (intro no_function_at)
  have "e ! i \<notin> hd ` set (map fst CONSTANTS)"
    unfolding CONSTANTS_heads using assms(2) by auto
  then have c: "first_match (map fst CONSTANTS) e i = None"
    using assms(1) by (intro no_constant_at)
  have n: "\<not> is_number_char (e ! i)"
    using assms(2) by (auto simp: char_defs)
  have o: "map_of OPERATORS [e ! i] \<noteq> None"
    using assms(2) by (auto simp: table_defs)
  have m: "[e ! i] = str ''-'' \<or> [e ! i] = MINUS_SIGN"
    using assms(2) by (auto simp: table_defs)
  show ?thesis
    by (subst tokenize_loop.simps) (use assms(1,3) f c n o m in \<open>simp add: Let_def\<close>)
qed

text \<open>
  C3. A minus sign at the start of the input, after an operator or after a left
  parenthesis is tokenized as \<open>NUMBER -1\<close>, \<open>OPERATOR \<times>\<close> (U+00D7); the claim continues
  that \<open>-3+5\<close> evaluates to 2 and \<open>5*-2\<close> to -10. The tokens are as claimed, but the
  evaluator has no case for the symbol U+00D7 the tokenizer emits (its label for
  multiplication holds other code units), so both evaluations end in the error
  \<^verbatim>\<open>Unknown operator\<close>.
\<close>

theorem C3_unary_minus_unknown_operator:
  "tokenize (str ''-3+5'') =
     [Token NUMBER (NumV (Num (- 1))), Token OPERATOR (StrV TIMES_SIGN),
      Token NUMBER (NumV (Num 3)), Token OPERATOR (StrV (str ''+'')),
      Token NUMBER (NumV (Num 5))] \<and>
   tokenize (str ''5*-2'') =
     [Token NUMBER (NumV (Num 5)), Token OPERATOR (StrV (str ''*'')),
      Token NUMBER (NumV (Num (- 1))), Token OPERATOR (StrV TIMES_SIGN),
      Token NUMBER (NumV (Num 2))] \<and>
   evaluateExpression (str ''-3+5'') ctx calculatorState =
     Inl (UnknownOperator (StrV TIMES_SIGN)) \<and>
   evaluateExpression (str ''5*-2'') ctx calculatorState =
     Inl (UnknownOperator (StrV TIMES_SIGN))"
  by (simp add: pipeline_defs table_defs char_defs label_defs)

theorem C3_unary_minus_unknown_operator_witness:
  "evaluateExpression (str ''-3+5'') (Context (Some (str ''RAD'')) (Some Map.empty)) None =
     Inl (UnknownOperator (StrV [0xD7]))"
  using C3_unary_minus_unknown_operator [of "Context (Some (str ''RAD'')) (Some Map.empty)" None]
  by (simp add: TIMES_SIGN_def)

section \<open>Domain checks of the evaluator\<close>

lemma evaluateOperation_log_domain:
  "num_le x (Num 0) \<Longrightarrow>
   evaluateOperation (StrV (str ''log'')) (x # rest) u = Inl (InvalidDomain (str ''log''))"
  by (simp add: evaluateOperation_def is_case_def arg_def table_defs label_defs)

lemma evaluateOperation_ln_domain:
  "num_le x (Num 0) \<Longrightarrow>
   evaluateOperation (StrV (str ''ln'')) (x # rest) u = Inl (InvalidDomain (str ''ln''))"
  by (simp add: evaluateOperation_def is_case_def arg_def table_defs label_defs)

lemma evaluateOperation_sqrt_domain:
  "num_less x (Num 0) \<Longrightarrow>
   evaluateOperation (StrV (str ''sqrt'')) (x # rest) u = Inl (InvalidDomain (str ''sqrt''))"
  by (simp add: evaluateOperation_def is_case_def arg_def table_defs label_defs)

lemma evaluateOperation_division_by_zero:
  "(evaluateOperation (StrV (str ''/'')) [a, b] u = Inl DivisionByZero) = (b = Num 0)"
  by (auto simp: evaluateOperation_def is_case_def arg_def table_defs label_defs num_eq_def)

text \<open>
  C4. The claim: \<open>log\<close> and \<open>ln\<close> fail with a domain error for an argument \<open>\<le> 0\<close>,
  \<open>sqrt\<close> for a negative argument, \<open>/\<close> with a division-by-zero error exactly when the
  divisor is 0; in particular \<open>sqrt(-1)\<close>, \<open>10/0\<close> and \<open>log(0)\<close> fail with the respective
  error. The four lemmas above are the checks of \<open>evaluateOperation\<close>. Through the
  pipeline \<open>10/0\<close> and \<open>log(0)\<close> fail as claimed, but \<open>sqrt(-1)\<close> does not reach the
  domain check: its unary minus becomes \<open>-1 \<times> 1\<close>, whose operator U+00D7 the evaluator
  does not know, and the evaluation ends in \<^verbatim>\<open>Unknown operator\<close>.
\<close>

theorem C4_domain_errors_pipeline:
  "evaluateExpression (str ''sqrt(-1)'') ctx calculatorState =
     Inl (UnknownOperator (StrV TIMES_SIGN)) \<and>
   evaluateExpression (str ''10/0'') ctx calculatorState = Inl DivisionByZero \<and>
   evaluateExpression (str ''log(0)'') ctx calculatorState =
     Inl (InvalidDomain (str ''log''))"
  by (simp add: pipeline_defs table_defs char_defs label_defs)

theorem C4_domain_errors_pipeline_witness:
  "evaluateExpression (str ''sqrt(-1)'') (Context None None) None =
     Inl (UnknownOperator (StrV [0xD7]))"
  using C4_domain_errors_pipeline [of "Context None None" None]
  by (simp add: TIMES_SIGN_def)

section \<open>First match, not longest match\<close>

lemma first_match_matches:
  "first_match names e i = Some n \<Longrightarrow> substr e i (length n) = n"
  by (induction names) (auto split: if_splits)

lemma sin_is_first: "map fst FUNCTIONS = str ''sin'' # tl (map fst FUNCTIONS)"
  by (simp add: FUNCTIONS_def)

lemma sinh_starts_with_sin:
  assumes "substr e i 4 = str ''sinh''"
  shows "substr e i 3 = str ''sin''"
proof -
  have "take 3 (drop i e) = take 3 (take 4 (drop i e))" by simp
  also have "\<dots> = take 3 (str ''sinh'')" using assms by (simp only: substr_def)
  also have "\<dots> = str ''sin''" by (simp add: str_def)
  finally show ?thesis by (simp only: substr_def)
qed

text \<open>No input, at no position, is matched by the table's entry \<open>sinh\<close>.\<close>

lemma sinh_never_matched:
  "first_match (map fst FUNCTIONS) e i \<noteq> Some (str ''sinh'')"
proof
  assume m: "first_match (map fst FUNCTIONS) e i = Some (str ''sinh'')"
  have l4: "length (str ''sinh'') = 4" and l3: "length (str ''sin'') = 3"
    by (simp_all add: str_def)
  from m have "substr e i (length (str ''sinh'')) = str ''sinh''" by (rule first_match_matches)
  then have "substr e i 4 = str ''sinh''" unfolding l4 .
  then have "substr e i 3 = str ''sin''" by (rule sinh_starts_with_sin)
  then have "substr e i (length (str ''sin'')) = str ''sin''" unfolding l3 .
  then have "first_match (str ''sin'' # tl (map fst FUNCTIONS)) e i = Some (str ''sin'')"
    by simp
  then have "first_match (map fst FUNCTIONS) e i = Some (str ''sin'')"
    using sin_is_first by simp
  with m show False by (simp add: str_def)
qed

text \<open>
  C5. The claim: at every position the tokenizer takes the longest function name of
  the table that occurs there, so that \<open>sinh\<close> is one function token. The loop over the
  table stops at the first name that occurs, in the table's order, and \<open>sin\<close> stands
  before \<open>sinh\<close>: \<open>sinh(1)\<close> is tokenized as the function \<open>sin\<close>, the variable \<open>h\<close> and
  the parenthesised \<open>1\<close>.
\<close>

theorem C5_sinh_first_match:
  "tokenize (str ''sinh(1)'') =
     [Token FUNCTION (StrV (str ''sin'')), Token VARIABLE (StrV (str ''h'')),
      Token LPAREN (StrV (str ''('')), Token NUMBER (NumV (Num 1)),
      Token RPAREN (StrV (str '')''))] \<and>
   first_match (map fst FUNCTIONS) (str ''sinh(1)'') 0 = Some (str ''sin'')"
  by (simp add: pipeline_defs table_defs char_defs)

section \<open>Cube root and fourth root\<close>

text \<open>
  What the two root cases of \<open>evaluateOperation\<close> compute, under the labels the
  evaluator's file holds: \<^verbatim>\<open>Math.cbrt\<close>, and \<^verbatim>\<open>Math.pow(x, 0.25)\<close>, which is NaN for a
  negative \<open>x\<close>. No token carries these labels.
\<close>

lemma root_cases_under_source_labels:
  "evaluateOperation (StrV CASE_CUBE_ROOT) (Num x # rest) u = Inr (Num (root 3 x))"
  "evaluateOperation (StrV CASE_FOURTH_ROOT) (Num x # rest) u =
     Inr (if x < 0 then NaN else Num (x powr (1 / 4)))"
  by (simp_all add: evaluateOperation_def is_case_def arg_def table_defs label_defs real_pow_def
      Math_cbrt_def)

text \<open>
  C6. The claim: for every real \<open>x\<close> the cube-root operation U+221B and the fourth-root
  operation U+221C return a real value, computed as \<open>pow(x, 1/n)\<close>, and never fail. In
  the code the two symbols, which are keys of \<open>FUNCTIONS\<close> and reach the evaluator as
  FUNCTION tokens, select no case of \<open>evaluateOperation\<close>: for every argument list the
  operation fails with \<^verbatim>\<open>Unknown operator\<close>, and so do the cube root of 8 and the
  fourth root of 16, written as expressions with the two symbols, in every context.
\<close>

theorem C6_root_symbols_unknown_operator:
  "evaluateOperation (StrV CUBE_ROOT) args u = Inl (UnknownOperator (StrV CUBE_ROOT)) \<and>
   evaluateOperation (StrV FOURTH_ROOT) args u = Inl (UnknownOperator (StrV FOURTH_ROOT)) \<and>
   tokenize (CUBE_ROOT @ str ''(8)'') =
     [Token FUNCTION (StrV CUBE_ROOT), Token LPAREN (StrV (str ''('')),
      Token NUMBER (NumV (Num 8)), Token RPAREN (StrV (str '')''))] \<and>
   evaluateExpression (CUBE_ROOT @ str ''(8)'') ctx calculatorState =
     Inl (UnknownOperator (StrV CUBE_ROOT)) \<and>
   evaluateExpression (FOURTH_ROOT @ str ''(16)'') ctx calculatorState =
     Inl (UnknownOperator (StrV FOURTH_ROOT))"
  by (simp add: evaluateOperation_def is_case_def pipeline_defs table_defs char_defs label_defs)

theorem C6_root_symbols_unknown_operator_witness:
  "evaluateOperation (StrV [0x221B]) [Num 8] (str ''DEG'') =
     Inl (UnknownOperator (StrV [0x221B])) \<and>
   evaluateExpression ([0x221C] @ str ''(16)'') (Context None None) None =
     Inl (UnknownOperator (StrV [0x221C]))"
  using C6_root_symbols_unknown_operator [of "[Num 8]" "str ''DEG''" "Context None None" None]
  by (simp add: CUBE_ROOT_def FOURTH_ROOT_def)

section \<open>Factorial\<close>

text \<open>
  Rounding first: \<open>ilog2\<close> brackets its argument between two powers of 2, and a number
  in the normal range that does not overflow is rounded within the unit roundoff.
\<close>

lemma pow2_powr: "pow2 e = 2 powr (real_of_int e)"
proof (cases "0 \<le> e")
  case True
  then have "2 powr (real_of_int e) = 2 powr (real (nat e))" by simp
  also have "\<dots> = 2 ^ nat e" by (simp only: powr_realpow [of 2 "nat e"] zero_less_numeral)
  finally show ?thesis using True by (simp add: pow2_def)
next
  case False
  then have "2 powr (real_of_int e) = 2 powr (- real (nat (- e)))" by simp
  also have "\<dots> = 1 / 2 powr (real (nat (- e)))" by (simp only: powr_minus_divide)
  also have "\<dots> = 1 / 2 ^ nat (- e)" by (simp only: powr_realpow [of 2 "nat (- e)"] zero_less_numeral)
  finally show ?thesis using False by (simp add: pow2_def)
qed

lemma pow2_pos: "0 < pow2 e"
  by (simp add: pow2_powr)

lemma pow2_Suc: "pow2 (e + 1) = 2 * pow2 e"
  by (simp add: pow2_powr powr_add)

lemma pow2_pred: "pow2 (e - 1) = pow2 e / 2"
  by (simp add: pow2_powr powr_diff)

lemma pow2_diff: "pow2 (e - d) = pow2 e / pow2 d"
  by (simp add: pow2_powr powr_diff)

lemma pow2_less_iff: "pow2 a < pow2 b \<longleftrightarrow> a < b"
  by (simp add: pow2_powr)

lemma ilog2_bracket: "0 < x \<Longrightarrow> pow2 (ilog2 x) \<le> x \<and> x < 2 * pow2 (ilog2 x)"
proof (induction x rule: ilog2.induct)
  case (1 x)
  show ?case
  proof (cases "2 \<le> x")
    case True
    with 1 have "pow2 (ilog2 (x / 2)) \<le> x / 2 \<and> x / 2 < 2 * pow2 (ilog2 (x / 2))" by simp
    moreover have "ilog2 x = ilog2 (x / 2) + 1" using True by (subst ilog2.simps) simp
    ultimately show ?thesis by (simp add: pow2_Suc)
  next
    case False
    show ?thesis
    proof (cases "x < 1")
      case True
      with 1 False have "pow2 (ilog2 (x * 2)) \<le> x * 2 \<and> x * 2 < 2 * pow2 (ilog2 (x * 2))" by simp
      moreover have "ilog2 x = ilog2 (x * 2) - 1" using True False 1 by (subst ilog2.simps) simp
      ultimately show ?thesis by (simp add: pow2_pred)
    next
      case ge: False
      have "ilog2 x = 0" using False ge by (subst ilog2.simps) simp
      with False ge show ?thesis by (simp add: pow2_def)
    qed
  qed
qed

lemma round_half_even_error: "\<bar>of_int (round_half_even y) - y\<bar> \<le> 1 / 2"
  unfolding round_half_even_def Let_def by (auto simp: abs_if) linarith+

lemma round64_bounds:
  assumes lo: "pow2 (- 1022) \<le> x" and hi: "x * (1 + u64) < pow2 1024"
  shows "\<exists>r. round64 x = Num r \<and> x * (1 - u64) \<le> r \<and> r \<le> x * (1 + u64)"
proof -
  from lo have x: "0 < x" using pow2_pos [of "- 1022"] by linarith
  let ?e = "ilog2 \<bar>x\<bar>"
  from x ilog2_bracket [of x] have br: "pow2 ?e \<le> x" "x < 2 * pow2 ?e" by simp_all
  from lo br(2) have "pow2 (- 1022) < pow2 (?e + 1)" by (simp add: pow2_Suc)
  then have e: "- 1022 \<le> ?e" by (simp add: pow2_less_iff)
  let ?ulp = "pow2 (?e - 52)"
  let ?r = "of_int (round_half_even (x / ?ulp)) * ?ulp"
  have ulp: "0 < ?ulp" by (rule pow2_pos)
  have "?r - x = (of_int (round_half_even (x / ?ulp)) - x / ?ulp) * ?ulp"
    using ulp by (simp add: left_diff_distrib)
  then have "\<bar>?r - x\<bar> = \<bar>of_int (round_half_even (x / ?ulp)) - x / ?ulp\<bar> * \<bar>?ulp\<bar>"
    by (simp only: abs_mult)
  also have "\<dots> = \<bar>of_int (round_half_even (x / ?ulp)) - x / ?ulp\<bar> * ?ulp"
    using ulp by simp
  also have "\<dots> \<le> (1 / 2) * ?ulp"
    using ulp round_half_even_error [of "x / ?ulp"] by (intro mult_right_mono) simp_all
  also have "\<dots> = pow2 ?e * u64"
  proof -
    have "pow2 52 = 2 ^ 52" by (simp add: pow2_def)
    then show ?thesis by (simp add: pow2_diff [of ?e 52] u64_def)
  qed
  also have "\<dots> \<le> x * u64" using br(1) by (simp add: u64_def)
  finally have err: "\<bar>?r - x\<bar> \<le> x * u64" .
  then have b: "x * (1 - u64) \<le> ?r" "?r \<le> x * (1 + u64)" by (simp_all add: algebra_simps abs_le_iff)
  have "0 \<le> x * (1 - u64)" using x by (simp add: u64_def)
  with b have "\<bar>?r\<bar> \<le> x * (1 + u64)" by simp
  with hi have "\<not> pow2 1024 \<le> \<bar>?r\<bar>" by simp
  then have "round64 x = Num ?r" using x e by (simp add: round64_def Let_def max_def)
  with b show ?thesis by blast
qed

text \<open>Up to 22 the factorial is a binary64 number: no step of the loop rounds.\<close>

lemma round64_fact_table:
  "round64 (fact 0) = Num (fact 0)"
  "round64 (fact 1) = Num (fact 1)"
  "round64 (fact 2) = Num (fact 2)"
  "round64 (fact 3) = Num (fact 3)"
  "round64 (fact 4) = Num (fact 4)"
  "round64 (fact 5) = Num (fact 5)"
  "round64 (fact 6) = Num (fact 6)"
  "round64 (fact 7) = Num (fact 7)"
  "round64 (fact 8) = Num (fact 8)"
  "round64 (fact 9) = Num (fact 9)"
  "round64 (fact 10) = Num (fact 10)"
  "round64 (fact 11) = Num (fact 11)"
  "round64 (fact 12) = Num (fact 12)"
  "round64 (fact 13) = Num (fact 13)"
  "round64 (fact 14) = Num (fact 14)"
  "round64 (fact 15) = Num (fact 15)"
  "round64 (fact 16) = Num (fact 16)"
  "round64 (fact 17) = Num (fact 17)"
  "round64 (fact 18) = Num (fact 18)"
  "round64 (fact 19) = Num (fact 19)"
  "round64 (fact 20) = Num (fact 20)"
  "round64 (fact 21) = Num (fact 21)"
  "round64 (fact 22) = Num (fact 22)"
  by (simp_all add: fact_numeral round64_def ilog2.simps pow2_def round_half_even_def Let_def)

lemma round64_fact_exact:
  assumes "j \<le> 22"
  shows "round64 (fact j) = Num (fact j)"
proof -
  have "j = 0 \<or> j = 1 \<or> j = 2 \<or> j = 3 \<or> j = 4 \<or> j = 5 \<or> j = 6 \<or> j = 7 \<or> j = 8 \<or> j = 9 \<or> j = 10 \<or> j = 11 \<or> j = 12 \<or> j = 13 \<or> j = 14 \<or> j = 15 \<or> j = 16 \<or> j = 17 \<or> j = 18 \<or> j = 19 \<or> j = 20 \<or> j = 21 \<or> j = 22"
    using assms by presburger
  then show ?thesis
    by (elim disjE) (simp_all only: round64_fact_table)
qed

lemma fact_step: "1 \<le> i \<Longrightarrow> fact (i - 1) * real i = fact i"
  by (cases i) (simp_all add: mult.commute)

lemma factorial_loop_exact:
  "1 \<le> i \<Longrightarrow> i \<le> k + 1 \<Longrightarrow> k \<le> 22 \<Longrightarrow>
   factorial_loop (real i) (real k) (Num (fact (i - 1))) = Num (fact k)"
proof (induction "k + 1 - i" arbitrary: i)
  case 0
  then have "i = k + 1" by simp
  then show ?case by (subst factorial_loop.simps) simp
next
  case (Suc d)
  then have le: "i \<le> k" by simp
  have "mul64 (Num (fact (i - 1))) (Num (real i)) = Num (fact i)"
    using round64_fact_exact [of i] fact_step [of i] Suc.prems le by (simp add: mul64_def)
  moreover have "factorial_loop (real (i + 1)) (real k) (Num (fact (i + 1 - 1))) = Num (fact k)"
    using Suc by (intro Suc.hyps(1)) simp_all
  ultimately show ?case
    using le by (subst factorial_loop.simps) (simp add: add.commute)
qed

text \<open>
  From 23 on the steps round. Each step keeps the relative error within the unit
  roundoff, and no intermediate product reaches \<open>2 ^ 1024\<close>, so the result is finite.
\<close>

lemma u64_range: "0 < u64" "u64 < 1"
  by (simp_all add: u64_def)

lemma pow_lower:
  assumes "n \<le> 170"
  shows "1 / 2 \<le> (1 - u64) ^ n"
proof -
  have "1 + real n * (- u64) \<le> (1 + (- u64)) ^ n"
    using u64_range by (intro Bernoulli_inequality) simp
  moreover have "real n * u64 \<le> 170 * u64"
    using assms u64_range by (intro mult_right_mono) simp_all
  moreover have "170 * u64 \<le> 1 / 2" by (simp add: u64_def)
  ultimately show ?thesis by simp
qed

lemma pow_upper:
  assumes "n \<le> 170"
  shows "(1 + u64) ^ n \<le> 2"
proof -
  have "(1 + u64) ^ n * (1 - u64) ^ n = ((1 + u64) * (1 - u64)) ^ n"
    by (simp add: power_mult_distrib)
  also have "\<dots> \<le> 1"
  proof (rule power_le_one)
    have "(1 + u64) * (1 - u64) = 1 - u64 * u64" by (simp add: algebra_simps)
    moreover have "0 \<le> u64 * u64" "u64 * u64 \<le> 1 * 1"
      using u64_range by (simp, intro mult_mono) simp_all
    ultimately show "0 \<le> (1 + u64) * (1 - u64)" "(1 + u64) * (1 - u64) \<le> 1" by simp_all
  qed
  finally have "(1 + u64) ^ n * (1 - u64) ^ n \<le> 1" .
  moreover have "(1 + u64) ^ n * (1 / 2) \<le> (1 + u64) ^ n * (1 - u64) ^ n"
    using pow_lower [OF assms] u64_range by (intro mult_left_mono) simp_all
  ultimately show ?thesis by simp
qed

lemma fact_170: "fact 170 * 2 < pow2 1024"
  by (simp add: fact_numeral pow2_def)

lemma no_overflow:
  assumes "n \<le> 170"
  shows "fact n * (1 + u64) ^ n < pow2 1024"
proof -
  have "(fact n :: real) \<le> fact 170" using assms by (rule fact_mono)
  then have "fact n * (1 + u64) ^ n \<le> fact 170 * 2"
    using pow_upper [OF assms] u64_range by (intro mult_mono) simp_all
  then show ?thesis using fact_170 by simp
qed

lemma factorial_loop_bounds:
  "1 \<le> i \<Longrightarrow> i \<le> k + 1 \<Longrightarrow> k \<le> 170 \<Longrightarrow>
   fact (i - 1) * (1 - u64) ^ (i - 1) \<le> p \<Longrightarrow> p \<le> fact (i - 1) * (1 + u64) ^ (i - 1) \<Longrightarrow>
   \<exists>r. factorial_loop (real i) (real k) (Num p) = Num r \<and>
       fact k * (1 - u64) ^ k \<le> r \<and> r \<le> fact k * (1 + u64) ^ k"
proof (induction "k + 1 - i" arbitrary: i p)
  case 0
  then have "i = k + 1" by simp
  with 0 show ?case by (subst factorial_loop.simps) simp
next
  case (Suc d)
  then have le: "i \<le> k" and i: "1 \<le> i" and i170: "i \<le> 170" by simp_all
  have i1: "i - 1 \<le> 170" using i170 by simp
  have pw: "\<And>x :: real. x ^ (i - 1) * x = x ^ i"
    using i by (cases i) simp_all
  have lo: "fact i * (1 - u64) ^ i \<le> p * real i * (1 - u64)"
  proof -
    have "fact i * (1 - u64) ^ i = (fact (i - 1) * real i) * ((1 - u64) ^ (i - 1) * (1 - u64))"
      by (simp only: fact_step [OF i] pw)
    also have "\<dots> = fact (i - 1) * (1 - u64) ^ (i - 1) * (real i * (1 - u64))"
      by (simp only: mult_ac)
    also have "\<dots> \<le> p * (real i * (1 - u64))"
      using Suc.prems(4) u64_range by (intro mult_right_mono) simp_all
    also have "\<dots> = p * real i * (1 - u64)" by (simp only: mult_ac)
    finally show ?thesis .
  qed
  have hi: "p * real i * (1 + u64) \<le> fact i * (1 + u64) ^ i"
  proof -
    have "p * real i * (1 + u64) = p * (real i * (1 + u64))" by (simp only: mult_ac)
    also have "\<dots> \<le> fact (i - 1) * (1 + u64) ^ (i - 1) * (real i * (1 + u64))"
      using Suc.prems(5) u64_range by (intro mult_right_mono) simp_all
    also have "\<dots> = (fact (i - 1) * real i) * ((1 + u64) ^ (i - 1) * (1 + u64))"
      by (simp only: mult_ac)
    also have "\<dots> = fact i * (1 + u64) ^ i"
      by (simp only: fact_step [OF i] pw)
    finally show ?thesis .
  qed
  have "1 / 2 \<le> fact (i - 1) * (1 - u64) ^ (i - 1)"
  proof -
    have "1 * (1 / 2) \<le> fact (i - 1) * (1 - u64) ^ (i - 1)"
      using pow_lower [OF i1] by (intro mult_mono) (simp_all add: fact_ge_1)
    then show ?thesis by simp
  qed
  then have "1 / 2 \<le> p" using Suc.prems(4) by simp
  then have "1 / 2 * 1 \<le> p * real i"
    using i by (intro mult_mono) simp_all
  moreover have "pow2 (- 1022) \<le> 1 / 2" by (simp add: pow2_def)
  ultimately have small: "pow2 (- 1022) \<le> p * real i" by simp
  have big: "p * real i * (1 + u64) < pow2 1024"
    using hi no_overflow [OF i170] by simp
  from round64_bounds [OF small big] obtain q where
    q: "round64 (p * real i) = Num q" "p * real i * (1 - u64) \<le> q" "q \<le> p * real i * (1 + u64)"
    by blast
  have "\<exists>r. factorial_loop (real (i + 1)) (real k) (Num q) = Num r \<and>
       fact k * (1 - u64) ^ k \<le> r \<and> r \<le> fact k * (1 + u64) ^ k"
    using Suc.hyps(2) Suc.prems(3) le lo hi q(2,3) by (intro Suc.hyps(1)) simp_all
  then show ?case
    using le q(1) by (subst factorial_loop.simps) (simp add: mul64_def add.commute)
qed

lemma evaluateOperation_factorial:
  "evaluateOperation (StrV (str ''!'')) args u =
     (if \<not> isInteger (arg args 0) \<or> num_less (arg args 0) (Num 0)
      then Inl FactorialRequiresNonNegativeInteger else factorial (arg args 0))"
  by (simp add: evaluateOperation_def is_case_def table_defs label_defs)

text \<open>
  C7 as the specification has it, at the operand 23: the case \<^verbatim>\<open>'!'\<close> returns
  25852016738884978212864, the binary64 result of the loop, which is not the product
  \<open>1 \<sqdot> 2 \<sqdot> \<dots> \<sqdot> 23 = 25852016738884976640000\<close>.
\<close>

theorem C7_factorial_23_not_exact:
  "evaluateOperation (StrV (str ''!'')) [Num 23] (str ''DEG'') =
     Inr (Num 25852016738884978212864) \<and>
   evaluateOperation (StrV (str ''!'')) [Num 23] (str ''DEG'') \<noteq> Inr (Num (fact 23))"
proof -
  have "factorial_loop 2 23 (Num 1) = Num 25852016738884978212864"
    by (simp add: factorial_loop.simps mul64_def round64_def ilog2.simps pow2_def
        round_half_even_def Let_def)
  moreover have "isInteger (Num 23)"
    using Ints_of_nat [of 23, where 'a = real] by (simp add: isInteger_def)
  ultimately have "evaluateOperation (StrV (str ''!'')) [Num 23] (str ''DEG'') =
      Inr (Num 25852016738884978212864)"
    by (simp add: evaluateOperation_factorial arg_def factorial_def num_eq_def num_gt_def)
  then show ?thesis by (simp add: fact_numeral)
qed

text \<open>
  C7, amended. The factorial operation fails with
  \<^verbatim>\<open>Factorial requires non-negative integer\<close> for every operand that is not a
  non-negative integer; for an integer operand above 170 it returns +Infinity; for an
  integer \<open>0 \<le> k \<le> 22\<close> it returns the exact product \<open>1 \<sqdot> 2 \<sqdot> \<dots> \<sqdot> k\<close>; for an integer
  \<open>0 \<le> k \<le> 170\<close> it returns a finite number \<open>p\<close>, the product rounded to binary64 at
  every step of the loop, with \<open>k! (1 - u)\<^sup>k \<le> p \<le> k! (1 + u)\<^sup>k\<close> for the unit
  roundoff \<open>u = 2 ^ -53\<close>. The operand is \<^verbatim>\<open>args[0]\<close>.
\<close>

theorem C7_factorial_rounded:
  "(\<not> (isInteger (arg args 0) \<and> num_le (Num 0) (arg args 0)) \<longrightarrow>
      evaluateOperation (StrV (str ''!'')) args u = Inl FactorialRequiresNonNegativeInteger) \<and>
   (arg args 0 = Num (real k) \<and> 170 < k \<longrightarrow>
      evaluateOperation (StrV (str ''!'')) args u = Inr Infinity) \<and>
   (arg args 0 = Num (real k) \<and> k \<le> 22 \<longrightarrow>
      evaluateOperation (StrV (str ''!'')) args u = Inr (Num (fact k))) \<and>
   (arg args 0 = Num (real k) \<and> k \<le> 170 \<longrightarrow>
      (\<exists>p. evaluateOperation (StrV (str ''!'')) args u = Inr (Num p) \<and>
           fact k * (1 - u64) ^ k \<le> p \<and> p \<le> fact k * (1 + u64) ^ k))"
proof -
  note sel = evaluateOperation_factorial [of args u]
  have bad: "evaluateOperation (StrV (str ''!'')) args u = Inl FactorialRequiresNonNegativeInteger"
    if "\<not> (isInteger (arg args 0) \<and> num_le (Num 0) (arg args 0))"
    using that unfolding sel
    by (cases "arg args 0") (auto simp: isInteger_def num_le_def num_eq_def)
  have int: "isInteger (Num (real k))" "\<not> num_less (Num (real k)) (Num 0)"
    by (simp_all add: isInteger_def)
  have big: "evaluateOperation (StrV (str ''!'')) args u = Inr Infinity"
    if "arg args 0 = Num (real k)" "170 < k"
    using that int unfolding sel by (simp add: factorial_def num_eq_def num_gt_def)
  have loop: "evaluateOperation (StrV (str ''!'')) args u =
      (if k = 0 \<or> k = 1 then Inr (Num 1) else Inr (factorial_loop 2 (real k) (Num 1)))"
    if "arg args 0 = Num (real k)" "k \<le> 170"
    using that int unfolding sel by (simp add: factorial_def num_eq_def num_gt_def)
  have exact: "evaluateOperation (StrV (str ''!'')) args u = Inr (Num (fact k))"
    if a: "arg args 0 = Num (real k)" and k: "k \<le> 22"
  proof (cases "k = 0 \<or> k = 1")
    case True
    then show ?thesis using loop [OF a] k by auto
  next
    case False
    then have "2 \<le> k" by simp
    then have "factorial_loop (real 2) (real k) (Num (fact (2 - 1))) = Num (fact k)"
      using k by (intro factorial_loop_exact) simp_all
    then have "factorial_loop 2 (real k) (Num 1) = Num (fact k)" by simp
    then show ?thesis using loop [OF a] k False by simp
  qed
  have rounded: "\<exists>p. evaluateOperation (StrV (str ''!'')) args u = Inr (Num p) \<and>
           fact k * (1 - u64) ^ k \<le> p \<and> p \<le> fact k * (1 + u64) ^ k"
    if a: "arg args 0 = Num (real k)" and k: "k \<le> 170"
  proof (cases "k = 0 \<or> k = 1")
    case True
    then show ?thesis using loop [OF a k] u64_range by auto
  next
    case False
    then have "2 \<le> k" by simp
    then have "\<exists>r. factorial_loop (real 2) (real k) (Num 1) = Num r \<and>
        fact k * (1 - u64) ^ k \<le> r \<and> r \<le> fact k * (1 + u64) ^ k"
      using k u64_range by (intro factorial_loop_bounds) simp_all
    then show ?thesis using loop [OF a k] False by simp
  qed
  from bad big exact rounded show ?thesis by blast
qed

theorem C7_factorial_rounded_witness:
  "evaluateOperation (StrV (str ''!'')) [Num (5 / 2)] (str ''DEG'') =
     Inl FactorialRequiresNonNegativeInteger \<and>
   evaluateOperation (StrV (str ''!'')) [Num 171] (str ''DEG'') = Inr Infinity \<and>
   evaluateOperation (StrV (str ''!'')) [Num 5] (str ''DEG'') = Inr (Num 120)"
proof -
  have "(5 / 2 :: real) \<notin> \<int>"
  proof
    assume "(5 / 2 :: real) \<in> \<int>"
    then obtain z :: int where "5 / 2 = (of_int z :: real)" by (auto elim: Ints_cases)
    then have "(of_int (2 * z) :: real) = of_int 5" by simp
    then have "2 * z = 5" by (simp only: of_int_eq_iff)
    then show False by presburger
  qed
  then show ?thesis
    using C7_factorial_rounded [of "[Num (5 / 2)]" "str ''DEG''" 0]
      C7_factorial_rounded [of "[Num 171]" "str ''DEG''" 171]
      C7_factorial_rounded [of "[Num 5]" "str ''DEG''" 5]
    by (simp add: arg_def isInteger_def fact_numeral)
qed

section \<open>What the tokenizer emits\<close>

text \<open>
  The tokens \<open>tokenize\<close> can produce, and the tokens a position that starts neither a
  number nor a name of the tables adds (\<open>char_tokens\<close>, the last part of the loop body).
\<close>

definition emitted :: "token \<Rightarrow> bool" where
  "emitted t =
     ((\<exists>n. t = Token NUMBER (NumV n)) \<or>
      (\<exists>f \<in> set (map fst FUNCTIONS). t = Token FUNCTION (StrV f)) \<or>
      (\<exists>c \<in> set (map fst CONSTANTS). t = Token CONSTANT (StrV c)) \<or>
      (\<exists>s. map_of OPERATORS s \<noteq> None \<and> t = Token OPERATOR (StrV s)) \<or>
      t = Token LPAREN (StrV (str ''('')) \<or>
      t = Token RPAREN (StrV (str '')'')) \<or>
      t = Token COMMA (StrV (str '','')) \<or>
      (\<exists>c. is_letter c \<and> t = Token VARIABLE (StrV [c])))"

lemma emitted_intros:
  "emitted (Token NUMBER (NumV n))"
  "f \<in> set (map fst FUNCTIONS) \<Longrightarrow> emitted (Token FUNCTION (StrV f))"
  "k \<in> set (map fst CONSTANTS) \<Longrightarrow> emitted (Token CONSTANT (StrV k))"
  "map_of OPERATORS s \<noteq> None \<Longrightarrow> emitted (Token OPERATOR (StrV s))"
  "[c] = str ''('' \<Longrightarrow> emitted (Token LPAREN (StrV [c]))"
  "[c] = str '')'' \<Longrightarrow> emitted (Token RPAREN (StrV [c]))"
  "[c] = str '','' \<Longrightarrow> emitted (Token COMMA (StrV [c]))"
  "is_letter c \<Longrightarrow> emitted (Token VARIABLE (StrV [c]))"
  "emitted (Token LPAREN (StrV (str ''('')))"
  "emitted (Token RPAREN (StrV (str '')'')))"
  "emitted (Token COMMA (StrV (str '','')))"
  unfolding emitted_def by blast+

lemma emitted_times: "emitted (Token OPERATOR (StrV TIMES_SIGN))"
  by (rule emitted_intros) (simp add: table_defs)

definition char_tokens :: "jschar \<Rightarrow> nat \<Rightarrow> token list \<Rightarrow> token list" where
  "char_tokens c i tokens =
     (if map_of OPERATORS [c] \<noteq> None then
        (if ([c] = str ''-'' \<or> [c] = MINUS_SIGN) \<and>
            (i = 0 \<or> tokens = [] \<or> ttype (last tokens) = OPERATOR
             \<or> ttype (last tokens) = LPAREN)
         then [Token NUMBER (NumV (Num (- 1))), Token OPERATOR (StrV TIMES_SIGN)]
         else [Token OPERATOR (StrV [c])])
      else if [c] = str ''('' then [Token LPAREN (StrV [c])]
      else if [c] = str '')'' then [Token RPAREN (StrV [c])]
      else if [c] = str '','' then [Token COMMA (StrV [c])]
      else if is_letter c then [Token VARIABLE (StrV [c])]
      else [])"

lemma tokenize_loop_char:
  assumes "i < length e" "\<not> is_number_char (e ! i)"
    "first_match (map fst FUNCTIONS) e i = None" "first_match (map fst CONSTANTS) e i = None"
  shows "tokenize_loop e i tokens = tokenize_loop e (i + 1) (tokens @ char_tokens (e ! i) i tokens)"
  by (subst tokenize_loop.simps) (simp add: assms char_tokens_def Let_def)

lemma char_tokens_emitted: "list_all emitted (char_tokens c i tokens)"
  by (simp add: char_tokens_def emitted_intros emitted_times)

lemma tokenize_loop_step:
  assumes "i < length e"
  shows "\<exists>k ts. 0 < k \<and> list_all emitted ts \<and>
           tokenize_loop e i tokens = tokenize_loop e (i + k) (tokens @ ts)"
proof (cases "is_number_char (e ! i)")
  case True
  let ?num = "takeWhile is_number_char (drop i e)"
  have "tokenize_loop e i tokens =
      tokenize_loop e (i + length ?num) (tokens @ [Token NUMBER (NumV (parseFloat ?num))])"
    by (subst tokenize_loop.simps) (simp add: assms True Let_def)
  moreover have "0 < length ?num" using assms True by (rule number_run_nonempty)
  moreover have "list_all emitted [Token NUMBER (NumV (parseFloat ?num))]"
    by (simp add: emitted_intros)
  ultimately show ?thesis by blast
next
  case nn: False
  show ?thesis
  proof (cases "first_match (map fst FUNCTIONS) e i")
    case (Some f)
    have "tokenize_loop e i tokens =
        tokenize_loop e (i + length f) (tokens @ [Token FUNCTION (StrV f)])"
      by (subst tokenize_loop.simps) (simp add: assms nn Some Let_def)
    moreover have "0 < length f" using Some by (rule first_match_FUNCTIONS)
    moreover have "list_all emitted [Token FUNCTION (StrV f)]"
      using first_match_mem [OF Some] by (simp add: emitted_intros)
    ultimately show ?thesis by blast
  next
    case nf: None
    show ?thesis
    proof (cases "first_match (map fst CONSTANTS) e i")
      case (Some c)
      have "tokenize_loop e i tokens =
          tokenize_loop e (i + length c) (tokens @ [Token CONSTANT (StrV c)])"
        by (subst tokenize_loop.simps) (simp add: assms nn nf Some Let_def)
      moreover have "0 < length c" using Some by (rule first_match_CONSTANTS)
      moreover have "list_all emitted [Token CONSTANT (StrV c)]"
        using first_match_mem [OF Some] by (simp add: emitted_intros)
      ultimately show ?thesis by blast
    next
      case nc: None
      from tokenize_loop_char [OF assms nn nf nc, of tokens] char_tokens_emitted
      show ?thesis by (metis zero_less_one)
    qed
  qed
qed

lemma tokenize_loop_emitted:
  "list_all emitted tokens \<Longrightarrow> list_all emitted (tokenize_loop e i tokens)"
proof (induction "length e - i" arbitrary: i tokens rule: less_induct)
  case less
  show ?case
  proof (cases "i < length e")
    case False
    then show ?thesis using less.prems by (subst tokenize_loop.simps) simp
  next
    case True
    from tokenize_loop_step [OF True, of tokens] obtain k ts where k: "0 < k"
      and ts: "list_all emitted ts"
      and eq: "tokenize_loop e i tokens = tokenize_loop e (i + k) (tokens @ ts)" by blast
    have "list_all emitted (tokenize_loop e (i + k) (tokens @ ts))"
      using True k ts less.prems by (intro less.hyps) simp_all
    with eq show ?thesis by simp
  qed
qed

lemma tokenize_emitted: "list_all emitted (tokenize expression)"
  unfolding tokenize_def by (rule tokenize_loop_emitted) simp

lemma emitted_token_ok: "emitted t \<Longrightarrow> token_ok t"
  by (auto simp: emitted_def token_ok_def lookup_operator_def table_defs)

lemma tokenize_known_operators: "known_operators (tokenize expression)"
  unfolding known_operators_def
  using tokenize_emitted [of expression] emitted_token_ok by (simp add: list_all_iff)

lemma emitted_not_bang: "emitted t \<Longrightarrow> tvalue t \<noteq> StrV (str ''!'')"
  by (auto simp: emitted_def table_defs is_letter_def)

section \<open>Parenthesis balance\<close>

text \<open>
  The nesting of a token sequence, in the specification's sense: \<open>paren_scan\<close> follows
  the depth of open parentheses from left to right; it is \<open>None\<close> when a right
  parenthesis closes nothing. A sequence is balanced when the scan ends at depth 0.
\<close>

definition paren_step :: "token \<Rightarrow> nat \<Rightarrow> nat option" where
  "paren_step t depth =
     (case ttype t of
        LPAREN \<Rightarrow> Some (depth + 1)
      | RPAREN \<Rightarrow> if depth = 0 then None else Some (depth - 1)
      | _ \<Rightarrow> Some depth)"

fun paren_scan :: "token list \<Rightarrow> nat \<Rightarrow> nat option" where
  "paren_scan [] depth = Some depth"
| "paren_scan (t # ts) depth =
     (case paren_step t depth of None \<Rightarrow> None | Some depth' \<Rightarrow> paren_scan ts depth')"

definition balanced :: "token list \<Rightarrow> bool" where
  "balanced ts = (paren_scan ts 0 = Some 0)"

definition lparens :: "token list \<Rightarrow> nat" where
  "lparens stk = length (filter (\<lambda>t. ttype t = LPAREN) stk)"

definition stack_ok :: "token list \<Rightarrow> bool" where
  "stack_ok stk = (known_operators stk \<and> list_all (\<lambda>t. ttype t \<noteq> RPAREN) stk)"

lemma pop_until_lparen_props:
  "pop_until_lparen out stk = (out', stk') \<Longrightarrow>
   lparens stk' = lparens stk \<and> (\<exists>pre. stk = pre @ stk') \<and>
   (case stk' of [] \<Rightarrow> True | t # _ \<Rightarrow> ttype t = LPAREN)"
proof (induction stk arbitrary: out)
  case Nil
  then show ?case by simp
next
  case (Cons t stk)
  show ?case
  proof (cases "ttype t = LPAREN")
    case True
    with Cons.prems show ?thesis by auto
  next
    case False
    with Cons.prems have "pop_until_lparen (out @ [t]) stk = (out', stk')" by simp
    from Cons.IH [OF this] False show ?thesis
      by (auto simp: lparens_def intro: exI [of _ "t # _"])
  qed
qed

lemma stack_ok_suffix: "stack_ok (pre @ stk) \<Longrightarrow> stack_ok stk"
  by (simp add: stack_ok_def known_operators_def)

lemma lparens_takeWhile_spec_pops: "lparens (takeWhile (spec_pops op1) stk) = 0"
  by (induction stk) (auto simp: lparens_def spec_pops_def)

lemma lparens_dropWhile_spec_pops: "lparens (dropWhile (spec_pops op1) stk) = lparens stk"
proof -
  have "lparens stk = lparens (takeWhile (spec_pops op1) stk @ dropWhile (spec_pops op1) stk)"
    by simp
  also have "\<dots> = lparens (takeWhile (spec_pops op1) stk) + lparens (dropWhile (spec_pops op1) stk)"
    unfolding lparens_def by (simp del: takeWhile_dropWhile_id)
  finally show ?thesis by (simp add: lparens_takeWhile_spec_pops)
qed

lemma stack_ok_dropWhile: "stack_ok stk \<Longrightarrow> stack_ok (dropWhile P stk)"
  using stack_ok_suffix [of "takeWhile P stk" "dropWhile P stk"] by simp

lemma parse_token_depth:
  assumes "stack_ok stk" and "token_ok t"
  shows "case parse_token t (out, stk) of
           Inl e \<Rightarrow> e = MismatchedParentheses \<and> paren_step t (lparens stk) = None
         | Inr (out', stk') \<Rightarrow> paren_step t (lparens stk) = Some (lparens stk') \<and> stack_ok stk'"
proof (cases "ttype t")
  case OPERATOR
  with assms(2) obtain op1 where op1: "lookup_operator (tvalue t) = Some op1"
    by (auto simp: token_ok_def)
  from assms(1) have k: "known_operators stk" by (simp add: stack_ok_def)
  have "stack_ok (t # dropWhile (spec_pops op1) stk)"
    using stack_ok_dropWhile [OF assms(1), of "spec_pops op1"] OPERATOR op1
    by (simp add: stack_ok_def known_operators_def token_ok_def)
  moreover have "parse_token t (out, stk) =
      Inr (out @ takeWhile (spec_pops op1) stk, t # dropWhile (spec_pops op1) stk)"
    using OPERATOR op1 pop_operators_takeWhile [OF k] by simp
  moreover have "lparens (t # dropWhile (spec_pops op1) stk) =
      lparens (dropWhile (spec_pops op1) stk)"
    using OPERATOR by (simp add: lparens_def)
  ultimately show ?thesis
    using OPERATOR by (simp add: paren_step_def lparens_dropWhile_spec_pops)
next
  case RPAREN
  obtain out' stk' where p: "pop_until_lparen out stk = (out', stk')" by (cases "pop_until_lparen out stk")
  note props = pop_until_lparen_props [OF p]
  show ?thesis
  proof (cases stk')
    case Nil
    with props RPAREN p show ?thesis by (simp add: paren_step_def lparens_def)
  next
    case (Cons l rest)
    with props have l: "ttype l = LPAREN" and n: "lparens stk = lparens (l # rest)" by simp_all
    from props Cons assms(1) have ok: "stack_ok (l # rest)" using stack_ok_suffix by blast
    then have ok': "stack_ok rest" using stack_ok_suffix [of "[l]" rest] by simp
    show ?thesis
    proof (cases rest)
      case Nil
      with Cons p RPAREN l n show ?thesis by (simp add: paren_step_def lparens_def stack_ok_def known_operators_def)
    next
      case (Cons f rest')
      with ok' have "stack_ok rest'" using stack_ok_suffix [of "[f]" rest'] by simp
      with Cons \<open>stk' = l # rest\<close> p RPAREN l n ok' show ?thesis
        by (auto simp: paren_step_def lparens_def)
    qed
  qed
next
  case COMMA
  obtain out' stk' where p: "pop_until_lparen out stk = (out', stk')" by (cases "pop_until_lparen out stk")
  note props = pop_until_lparen_props [OF p]
  from props assms(1) have "stack_ok stk'" using stack_ok_suffix by blast
  with props p COMMA show ?thesis by (simp add: paren_step_def)
qed (use assms in \<open>simp_all add: paren_step_def lparens_def stack_ok_def known_operators_def\<close>)


lemma parse_loop_depth:
  "stack_ok stk \<Longrightarrow> known_operators ts \<Longrightarrow>
   (case parse_loop ts (out, stk) of
      Inl e \<Rightarrow> e = MismatchedParentheses \<and> paren_scan ts (lparens stk) = None
    | Inr (out', stk') \<Rightarrow> paren_scan ts (lparens stk) = Some (lparens stk') \<and> stack_ok stk')"
proof (induction ts arbitrary: out stk)
  case Nil
  then show ?case by simp
next
  case (Cons t ts)
  then have t: "token_ok t" and ts: "known_operators ts" by (simp_all add: known_operators_def)
  note step = parse_token_depth [OF Cons.prems(1) t, of out]
  show ?case
  proof (cases "parse_token t (out, stk)")
    case (Inl e)
    with step show ?thesis by (simp del: parse_token.simps)
  next
    case (Inr st)
    obtain out' stk' where st: "st = (out', stk')" by (cases st)
    with step Inr have d: "paren_step t (lparens stk) = Some (lparens stk')" and ok: "stack_ok stk'"
      by simp_all
    from Inr st have pl: "parse_loop (t # ts) (out, stk) = parse_loop ts (out', stk')"
      by (simp del: parse_token.simps)
    from d have ps: "paren_scan (t # ts) (lparens stk) = paren_scan ts (lparens stk')"
      by simp
    show ?thesis unfolding pl ps using Cons.IH [OF ok ts, of out'] .
  qed
qed

lemma pop_remaining_cases:
  "list_all (\<lambda>t. ttype t \<noteq> RPAREN) stk \<Longrightarrow>
   (if lparens stk = 0 then \<exists>rpn. pop_remaining out stk = Inr rpn
    else pop_remaining out stk = Inl MismatchedParentheses)"
  by (induction stk arbitrary: out) (auto simp: lparens_def)

lemma parseToRPN_balance:
  assumes ok: "known_operators tokens"
  shows "(paren_scan tokens 0 = None \<longrightarrow> parse_loop tokens ([], []) = Inl MismatchedParentheses) \<and>
     (\<not> balanced tokens \<longrightarrow> parseToRPN tokens = Inl MismatchedParentheses) \<and>
     (balanced tokens \<longrightarrow> (\<exists>rpn. parseToRPN tokens = Inr rpn))"
proof -
  have e: "stack_ok []" by (simp add: stack_ok_def known_operators_def)
  note loop = parse_loop_depth [OF e ok, of "[]"]
  show ?thesis
  proof (cases "parse_loop tokens ([], [])")
    case (Inl err)
    with loop show ?thesis by (simp add: parseToRPN_def balanced_def lparens_def)
  next
    case (Inr st)
    obtain out stk where st: "st = (out, stk)" by (cases st)
    with loop Inr have d: "paren_scan tokens 0 = Some (lparens stk)" and sk: "stack_ok stk"
      by (simp_all add: lparens_def)
    from sk have "list_all (\<lambda>t. ttype t \<noteq> RPAREN) stk" by (simp add: stack_ok_def)
    from pop_remaining_cases [OF this, of out] Inr st d show ?thesis
      by (auto simp: parseToRPN_def balanced_def split: if_splits)
  qed
qed

text \<open>
  C8. \<open>parseToRPN\<close> fails with \<^verbatim>\<open>Mismatched parentheses\<close> whenever the parentheses of
  the token sequence are unbalanced, in either direction: a right parenthesis with no
  left parenthesis open raises it during the scan, a left parenthesis still on the
  operator stack raises it in the final loop; and a balanced sequence is parsed. This
  holds for every token sequence whose operator symbols are those of the table, and
  so for the tokens of every input string.
\<close>

theorem C8_mismatched_parentheses:
  "(known_operators tokens \<longrightarrow>
     (paren_scan tokens 0 = None \<longrightarrow> parse_loop tokens ([], []) = Inl MismatchedParentheses) \<and>
     (\<not> balanced tokens \<longrightarrow> parseToRPN tokens = Inl MismatchedParentheses) \<and>
     (balanced tokens \<longrightarrow> (\<exists>rpn. parseToRPN tokens = Inr rpn))) \<and>
   (\<not> balanced (tokenize expression) \<longrightarrow> parse expression = Inl MismatchedParentheses) \<and>
   (balanced (tokenize expression) \<longrightarrow> (\<exists>rpn. parse expression = Inr rpn))"
  using parseToRPN_balance [of tokens]
    parseToRPN_balance [OF tokenize_known_operators, of expression]
  unfolding parse_def by blast

theorem C8_mismatched_parentheses_witness:
  "parseToRPN [Token NUMBER (NumV (Num 1)), Token RPAREN (StrV (str '')''))] =
     Inl MismatchedParentheses \<and>
   parseToRPN [Token LPAREN (StrV (str ''('')), Token NUMBER (NumV (Num 1)),
               Token OPERATOR (StrV (str ''+''))] = Inl MismatchedParentheses \<and>
   (\<exists>rpn. parseToRPN [Token LPAREN (StrV (str ''('')), Token NUMBER (NumV (Num 1)),
                      Token RPAREN (StrV (str '')''))] = Inr rpn)"
  using
    C8_mismatched_parentheses [of "[Token NUMBER (NumV (Num 1)), Token RPAREN (StrV (str '')''))]" "[]"]
    C8_mismatched_parentheses [of "[Token LPAREN (StrV (str ''('')), Token NUMBER (NumV (Num 1)),
               Token OPERATOR (StrV (str ''+''))]" "[]"]
    C8_mismatched_parentheses [of "[Token LPAREN (StrV (str ''('')), Token NUMBER (NumV (Num 1)),
                      Token RPAREN (StrV (str '')''))]" "[]"]
  by (simp add: known_operators_def token_ok_def balanced_def paren_step_def lookup_operator_def
      table_defs)

section \<open>The character \<open>!\<close>\<close>

lemma bang_dropped:
  assumes "i < length e" and "e ! i = 33"
  shows "tokenize_loop e i tokens = tokenize_loop e (i + 1) tokens"
proof -
  have "e ! i \<notin> hd ` set (map fst FUNCTIONS)"
    unfolding FUNCTIONS_heads using assms(2) by simp
  then have f: "first_match (map fst FUNCTIONS) e i = None"
    using assms(1) by (intro no_function_at)
  have "e ! i \<notin> hd ` set (map fst CONSTANTS)"
    unfolding CONSTANTS_heads using assms(2) by simp
  then have c: "first_match (map fst CONSTANTS) e i = None"
    using assms(1) by (intro no_constant_at)
  have n: "\<not> is_number_char (e ! i)" using assms(2) by (simp add: char_defs)
  have "char_tokens (e ! i) i tokens = []"
    using assms(2) by (simp add: char_tokens_def table_defs is_letter_def)
  with tokenize_loop_char [OF assms(1) n f c, of tokens] show ?thesis by simp
qed

definition numeric_literal :: "jsstring \<Rightarrow> bool" where
  "numeric_literal s = (s \<noteq> [] \<and> list_all is_number_char s)"

lemma literal_no_whitespace:
  "list_all is_number_char s \<Longrightarrow> filter (\<lambda>c. \<not> is_whitespace c) s = s"
  by (induction s) (auto simp: char_defs)

lemma tokenize_literal_bang:
  assumes "numeric_literal lit"
  shows "tokenize (lit @ str ''!'') = [Token NUMBER (NumV (parseFloat lit))]"
proof -
  let ?e = "lit @ [33]"
  from assms have ne: "lit \<noteq> []" and all: "list_all is_number_char lit"
    by (simp_all add: numeric_literal_def)
  have ws: "filter (\<lambda>c. \<not> is_whitespace c) ?e = ?e"
    using literal_no_whitespace [OF all] by (simp add: is_whitespace_def)
  have run: "takeWhile is_number_char (drop 0 ?e) = lit"
    using all by (simp add: list_all_iff is_number_char_def is_digit_def)
  have first: "is_number_char (?e ! 0)"
    using ne all by (cases lit) simp_all
  have "tokenize_loop ?e 0 [] =
      tokenize_loop ?e (0 + length (takeWhile is_number_char (drop 0 ?e)))
        ([] @ [Token NUMBER (NumV (parseFloat (takeWhile is_number_char (drop 0 ?e))))])"
    by (subst tokenize_loop.simps) (use first in \<open>simp add: Let_def\<close>)
  also have "\<dots> = tokenize_loop ?e (length lit) [Token NUMBER (NumV (parseFloat lit))]"
    unfolding run by simp
  also have "\<dots> = tokenize_loop ?e (length lit + 1) [Token NUMBER (NumV (parseFloat lit))]"
    by (rule bang_dropped) simp_all
  also have "\<dots> = [Token NUMBER (NumV (parseFloat lit))]"
    by (subst tokenize_loop.simps) simp
  finally show ?thesis using ws by (simp add: tokenize_def str_def)
qed

lemma tokenize_literal:
  assumes "numeric_literal lit"
  shows "tokenize lit = [Token NUMBER (NumV (parseFloat lit))]"
proof -
  from assms have ne: "lit \<noteq> []" and all: "list_all is_number_char lit"
    by (simp_all add: numeric_literal_def)
  have run: "takeWhile is_number_char (drop 0 lit) = lit"
    using all by (simp add: list_all_iff)
  have first: "is_number_char (lit ! 0)"
    using ne all by (cases lit) simp_all
  have "tokenize_loop lit 0 [] =
      tokenize_loop lit (0 + length (takeWhile is_number_char (drop 0 lit)))
        ([] @ [Token NUMBER (NumV (parseFloat (takeWhile is_number_char (drop 0 lit))))])"
    by (subst tokenize_loop.simps) (use first ne in \<open>simp add: Let_def\<close>)
  also have "\<dots> = tokenize_loop lit (length lit) [Token NUMBER (NumV (parseFloat lit))]"
    unfolding run by simp
  also have "\<dots> = [Token NUMBER (NumV (parseFloat lit))]"
    by (subst tokenize_loop.simps) simp
  finally show ?thesis using literal_no_whitespace [OF all] by (simp add: tokenize_def)
qed

lemma evaluate_single_number:
  "tokenize s = [Token NUMBER (NumV v)] \<Longrightarrow> evaluateExpression s ctx cs = Inr v"
  by (simp add: evaluateExpression_def parse_def parseToRPN_def evaluate_def eval_token_def)

lemma pop_until_lparen_set:
  "pop_until_lparen out stk = (out', stk') \<Longrightarrow> set out' \<union> set stk' \<subseteq> set out \<union> set stk"
proof (induction stk arbitrary: out)
  case Nil
  then show ?case by auto
next
  case (Cons a stk)
  show ?case
  proof (cases "ttype a = LPAREN")
    case True
    with Cons.prems show ?thesis by auto
  next
    case False
    with Cons.prems have "pop_until_lparen (out @ [a]) stk = (out', stk')" by simp
    from Cons.IH [OF this] show ?thesis by auto
  qed
qed

lemma pop_operators_set:
  "pop_operators op1 out stk = Inr (out', stk') \<Longrightarrow> set out' \<union> set stk' \<subseteq> set out \<union> set stk"
proof (induction stk arbitrary: out)
  case Nil
  then show ?case by auto
next
  case (Cons a stk)
  show ?case
  proof (cases "pop_operators op1 (out @ [a]) stk = Inr (out', stk')")
    case True
    from Cons.IH [OF this] show ?thesis by auto
  next
    case False
    with Cons.prems show ?thesis by (auto split: if_splits option.splits)
  qed
qed

lemma parse_token_set:
  assumes "parse_token t (out, stk) = Inr (out', stk')"
  shows "set out' \<union> set stk' \<subseteq> insert t (set out \<union> set stk)"
proof (cases "ttype t")
  case OPERATOR
  with assms obtain o' s' where p: "pop_operators (lookup_operator (tvalue t)) out stk = Inr (o', s')"
    and r: "out' = o'" "stk' = t # s'"
    by (auto split: sum.splits)
  from pop_operators_set [OF p] r show ?thesis by auto
next
  case RPAREN
  obtain o' s' where p: "pop_until_lparen out stk = (o', s')" by (cases "pop_until_lparen out stk")
  from pop_until_lparen_set [OF p] assms RPAREN p show ?thesis
    by (auto split: list.splits if_splits)
next
  case COMMA
  with assms have "pop_until_lparen out stk = (out', stk')" by simp
  from pop_until_lparen_set [OF this] show ?thesis by auto
qed (use assms in auto)

lemma parse_loop_set:
  "parse_loop ts (out, stk) = Inr (out', stk') \<Longrightarrow>
   set out' \<union> set stk' \<subseteq> set ts \<union> set out \<union> set stk"
proof (induction ts arbitrary: out stk)
  case Nil
  then show ?case by auto
next
  case (Cons t ts)
  from Cons.prems obtain o1 s1 where st: "parse_token t (out, stk) = Inr (o1, s1)"
    and rest: "parse_loop ts (o1, s1) = Inr (out', stk')"
    by (auto simp del: parse_token.simps split: sum.splits)
  from Cons.IH [OF rest] parse_token_set [OF st] show ?case by auto
qed

lemma pop_remaining_set:
  "pop_remaining out stk = Inr rpn \<Longrightarrow> set rpn \<subseteq> set out \<union> set stk"
proof (induction stk arbitrary: out)
  case Nil
  then show ?case by auto
next
  case (Cons a stk)
  then have "pop_remaining (out @ [a]) stk = Inr rpn" by (auto split: if_splits)
  from Cons.IH [OF this] show ?case by auto
qed

lemma parseToRPN_set: "parseToRPN tokens = Inr rpn \<Longrightarrow> set rpn \<subseteq> set tokens"
proof -
  assume a: "parseToRPN tokens = Inr rpn"
  then obtain out stk where l: "parse_loop tokens ([], []) = Inr (out, stk)"
    and r: "pop_remaining out stk = Inr rpn"
    by (auto simp: parseToRPN_def split: sum.splits)
  from parse_loop_set [OF l] pop_remaining_set [OF r] show ?thesis by auto
qed

text \<open>
  C10. The string \<open>!\<close> is a key of none of the three tables; the tokenizer passes
  over the character \<open>!\<close> without a token, at every position of every input; no token
  of a parsed expression holds \<open>!\<close>, so the evaluator, which applies
  \<open>evaluateOperation\<close> to token values only, never reaches the factorial case; and a
  numeric literal (a non-empty run of digits and dots) followed by \<open>!\<close> evaluates to
  the literal's value, as the literal alone does.
\<close>

theorem C10_factorial_unreachable:
  "str ''!'' \<notin> set (map fst OPERATORS) \<union> set (map fst FUNCTIONS) \<union> set (map fst CONSTANTS) \<and>
   (i < length e \<and> e ! i = 33 \<longrightarrow> tokenize_loop e i tokens = tokenize_loop e (i + 1) tokens) \<and>
   (parse expression = Inr rpn \<longrightarrow> list_all (\<lambda>t. tvalue t \<noteq> StrV (str ''!'')) rpn) \<and>
   (numeric_literal lit \<longrightarrow>
      evaluateExpression (lit @ str ''!'') ctx calculatorState = Inr (parseFloat lit) \<and>
      evaluateExpression lit ctx calculatorState = Inr (parseFloat lit))"
proof -
  have a: "str ''!'' \<notin> set (map fst OPERATORS) \<union> set (map fst FUNCTIONS) \<union> set (map fst CONSTANTS)"
    by (simp add: table_defs)
  have c: "list_all (\<lambda>t. tvalue t \<noteq> StrV (str ''!'')) rpn" if "parse expression = Inr rpn"
  proof -
    from that have "set rpn \<subseteq> set (tokenize expression)"
      unfolding parse_def by (rule parseToRPN_set)
    with tokenize_emitted [of expression] emitted_not_bang show ?thesis
      by (auto simp: list_all_iff)
  qed
  have d: "evaluateExpression (lit @ str ''!'') ctx calculatorState = Inr (parseFloat lit) \<and>
      evaluateExpression lit ctx calculatorState = Inr (parseFloat lit)" if "numeric_literal lit"
    using tokenize_literal_bang [OF that] tokenize_literal [OF that]
    by (simp add: evaluate_single_number)
  from a bang_dropped [of i e tokens] c d show ?thesis by blast
qed

theorem C10_factorial_unreachable_witness:
  "tokenize_loop (str ''5!'') 1 [] = tokenize_loop (str ''5!'') (1 + 1) [] \<and>
   evaluateExpression (str ''12.5!'') (Context None None) None = Inr (Num (25 / 2)) \<and>
   evaluateExpression (str ''12.5'') (Context None None) None = Inr (Num (25 / 2))"
  using C10_factorial_unreachable [where i = 1 and e = "str ''5!''" and tokens = "[]"
      and expression = "[]" and rpn = "[]" and lit = "str ''12.5''"
      and ctx = "Context None None" and calculatorState = None]
  by (simp add: numeric_literal_def str_def char_defs parseFloat_def digits_value_def)

section \<open>Binding isolation\<close>

definition allocated :: "world \<Rightarrow> bool" where
  \<comment> \<open>the memory object in use was allocated before: a copy never takes its reference\<close>
  "allocated w = (state_memory w < next_ref w)"

definition preserves :: "'a prog \<Rightarrow> bool" where
  \<comment> \<open>whatever the outcome, the caller's bindings afterwards are those from before\<close>
  "preserves m = (\<forall>w. allocated w \<longrightarrow>
     allocated (snd (m w)) \<and> bindings (snd (m w)) = bindings w)"

lemma preserves_ret: "preserves (ret x)"
  by (simp add: preserves_def ret_def)

lemma preserves_throw: "preserves (throw e)"
  by (simp add: preserves_def throw_def)

lemma preserves_seq:
  assumes "preserves m" and "\<And>x. preserves (k x)"
  shows "preserves (seq m k)"
  unfolding preserves_def
proof (intro allI impI)
  fix w assume w: "allocated w"
  obtain r w' where m: "m w = (r, w')" by (cases "m w")
  with assms(1) w have w': "allocated w'" "bindings w' = bindings w"
    by (auto simp: preserves_def dest!: spec [of _ w])
  show "allocated (snd (seq m k w)) \<and> bindings (snd (seq m k w)) = bindings w"
  proof (cases r)
    case (Inl e)
    with m w' show ?thesis by (simp add: seq_def)
  next
    case (Inr x)
    from assms(2) [of x] w' have "allocated (snd (k x w')) \<and> bindings (snd (k x w')) = bindings w"
      by (simp add: preserves_def)
    with m Inr show ?thesis by (simp add: seq_def)
  qed
qed

lemma preserves_catch_wrap:
  assumes "preserves m"
  shows "preserves (catch_wrap wrap m)"
  unfolding preserves_def
proof (intro allI impI)
  fix w assume w: "allocated w"
  obtain r w' where m: "m w = (r, w')" by (cases "m w")
  with assms w have "allocated w'" "bindings w' = bindings w"
    by (auto simp: preserves_def dest!: spec [of _ w])
  with m show "allocated (snd (catch_wrap wrap m w)) \<and>
      bindings (snd (catch_wrap wrap m w)) = bindings w"
    by (cases r) (simp_all add: catch_wrap_def)
qed

lemma preserves_if:
  "(c \<Longrightarrow> preserves m1) \<Longrightarrow> (\<not> c \<Longrightarrow> preserves m2) \<Longrightarrow> preserves (if c then m1 else m2)"
  by simp

lemmas preserves_intros =
  preserves_ret preserves_throw preserves_seq preserves_catch_wrap preserves_if

lemma binding_restored:
  assumes "allocated w"
  shows "allocated (snd (createFunctionFromExpression toUpperCase expression variable v w))"
    and "bindings (snd (createFunctionFromExpression toUpperCase expression variable v w)) = bindings w"
  using assms
  by (auto simp: createFunctionFromExpression_def Let_def allocated_def bindings_def
      split: sum.splits)

lemma preserves_createFunctionFromExpression:
  "preserves (createFunctionFromExpression toUpperCase expression variable v)"
  unfolding preserves_def using binding_restored by blast

lemma preserves_solve_function: "preserves (solve_function toUpperCase expression variable v)"
  unfolding preserves_def
  by (auto simp: solve_function_def Let_def allocated_def bindings_def split: sum.splits)

lemma preserves_adaptiveSimpson:
  assumes "\<And>x. preserves (f x)"
  shows "preserves (adaptiveSimpson f a b epsilon S fa fb fc depth)"
proof (induction depth arbitrary: a b epsilon S fa fb fc)
  case 0
  show ?case
    by (subst adaptiveSimpson.simps) (auto simp: Let_def intro!: preserves_intros assms)
next
  case (Suc depth)
  show ?case
    by (subst adaptiveSimpson.simps) (auto simp: Let_def intro!: preserves_intros assms Suc)
qed

lemma preserves_integrate:
  assumes "\<And>g x. func = FromFunction g \<Longrightarrow> preserves (g x)"
  shows "preserves (integrate toUpperCase func a b options)"
proof -
  have fn: "preserves (f x)" if "integrand_function toUpperCase func variable = Some f" for f variable x
    using that assms
    by (cases func) (auto simp: integrand_function_def preserves_createFunctionFromExpression)
  have ordered: "allocated (snd (integrate toUpperCase func a b options w)) \<and>
      bindings (snd (integrate toUpperCase func a b options w)) = bindings w"
    if "\<not> num_gt a b" "allocated w" for a b w
  proof -
    let ?variable = "case io_variable options of Some v \<Rightarrow> v | None \<Rightarrow> str ''x''"
    show ?thesis
    proof (cases "integrand_function toUpperCase func ?variable")
      case None
      then show ?thesis using that
        by (simp add: integrate.simps [of toUpperCase func a b options w] throw_def Let_def)
    next
      case (Some f)
      have "preserves (catch_wrap IntegrationError
                 (seq (f a) (\<lambda>fa. seq (f b) (\<lambda>fb. seq (f ((a + b) / Num 2)) (\<lambda>fc.
                    if \<not> isFinite fa \<or> \<not> isFinite fb \<or> \<not> isFinite fc
                    then throw SingularityAtBounds
                    else
                      (let h = b - a;
                           S = (h / Num 6) * (fa + Num 4 * fc + fb)
                       in adaptiveSimpson f a b tol S fa fb fc md))))))" for tol md
        by (auto simp: Let_def intro!: preserves_intros preserves_adaptiveSimpson fn [OF Some])
      then show ?thesis using that Some
        by (simp add: integrate.simps [of toUpperCase func a b options w] Let_def throw_def ret_def
            preserves_def)
    qed
  qed
  show ?thesis
    unfolding preserves_def
  proof (intro allI impI)
    fix w assume w: "allocated w"
    show "allocated (snd (integrate toUpperCase func a b options w)) \<and>
      bindings (snd (integrate toUpperCase func a b options w)) = bindings w"
    proof (cases "num_gt a b")
      case False
      then show ?thesis using w by (rule ordered)
    next
      case True
      then have "\<not> num_gt b a" by (rule num_gt_asym)
      from ordered [OF this w] True w show ?thesis
        by (auto simp: integrate.simps [of toUpperCase func a b options w] Let_def throw_def ret_def
            split: option.splits prod.splits sum.splits)
    qed
  qed
qed


lemma preserves_bisection_loop:
  assumes "\<And>x. preserves (f x)"
  shows "preserves (bisection_loop f tolerance n a b fa fb)"
  by (induction n arbitrary: a b fa fb) (auto simp: Let_def intro!: preserves_intros assms)

lemma preserves_bisection:
  assumes "\<And>x. preserves (f x)"
  shows "preserves (bisection f a b tolerance maxIterations)"
  unfolding bisection_def
  by (auto intro!: preserves_intros assms preserves_bisection_loop)

lemma preserves_numerical_derivative:
  assumes "\<And>x. preserves (f x)"
  shows "preserves (numerical_derivative f h x)"
  unfolding numerical_derivative_def by (auto intro!: preserves_intros assms)

lemma preserves_newton_loop:
  assumes "\<And>x. preserves (f x)" and "\<And>x. preserves (df x)"
  shows "preserves (newton_loop f df tolerance n x)"
  by (induction n arbitrary: x) (auto simp: Let_def intro!: preserves_intros assms)

lemma preserves_newton:
  assumes "\<And>x. preserves (f x)"
  shows "preserves (newton f x0 tolerance maxIterations None h)"
  unfolding newton_def
  by (auto simp: Let_def intro!: preserves_newton_loop preserves_numerical_derivative assms)

lemma preserves_secant_loop:
  assumes "\<And>x. preserves (f x)"
  shows "preserves (secant_loop f tolerance n x0 x1)"
  by (induction n arbitrary: x0 x1) (auto simp: Let_def intro!: preserves_intros assms)

lemma preserves_brent_loop:
  assumes "\<And>x. preserves (f x)"
  shows "preserves (brent_loop f tolerance n a b c d e fa fb fc)"
proof (induction n arbitrary: a b c d e fa fb fc)
  case 0
  show ?case by (simp add: preserves_throw)
next
  case (Suc n)
  show ?case
    unfolding brent_loop.simps Let_def case_prod_beta
    by (intro preserves_if preserves_ret preserves_seq assms Suc)
qed

lemma preserves_brent:
  assumes "\<And>x. preserves (f x)"
  shows "preserves (brent f a b tolerance maxIterations)"
  unfolding brent_def Let_def case_prod_beta
  by (intro preserves_if preserves_throw preserves_seq assms preserves_brent_loop)

lemma preserves_expand_search:
  assumes "\<And>x. preserves (f x)"
  shows "preserves (expand_search f initialGuess n i)"
  by (induction n arbitrary: i) (auto simp: Let_def intro!: preserves_intros assms)

lemma preserves_solve:
  "preserves (solve toUpperCase expression variable initialGuess options)"
proof -
  note f = preserves_solve_function [of toUpperCase expression variable]
  show ?thesis
    unfolding solve_def Let_def case_prod_beta secant_def
    by (intro preserves_catch_wrap preserves_if preserves_seq f preserves_bisection
        preserves_newton preserves_secant_loop preserves_brent preserves_expand_search)
      (auto split: option.splits intro!: preserves_throw preserves_bisection preserves_brent
        preserves_newton f)
qed

text \<open>
  One evaluation, exactly: the expression is evaluated under the bindings with the
  trial value at the upper-cased name, and the world afterwards differs from the one
  before in this: a new object holds the bindings from before and is the one the state
  refers to, and the object the state referred to before holds the trial value.
\<close>

lemma evaluation_under_trial_binding:
  "fst (createFunctionFromExpression toUpperCase expression variable v w) =
     (let state = Context (state_angleUnit w) (Some ((bindings w)(toUpperCase variable \<mapsto> v)))
      in evaluateExpression expression state (Some state))"
  "fst (solve_function toUpperCase expression variable v w) =
     (let state = Context (state_angleUnit w) (Some ((bindings w)(toUpperCase variable \<mapsto> v)))
      in evaluateExpression expression state (Some state))"
  by (auto simp: createFunctionFromExpression_def solve_function_def Let_def bindings_def
      evaluateWithState_def split: sum.splits)

lemma world_after_evaluation:
  "snd (createFunctionFromExpression toUpperCase expression variable v w) =
     w\<lparr>heap := (heap w)(next_ref w := bindings w,
                        state_memory w := (bindings w)(toUpperCase variable \<mapsto> v)),
       next_ref := Suc (next_ref w), state_memory := next_ref w\<rparr>"
  "snd (solve_function toUpperCase expression variable v w) =
     w\<lparr>heap := (heap w)(next_ref w := bindings w,
                        state_memory w := (bindings w)(toUpperCase variable \<mapsto> v)),
       next_ref := Suc (next_ref w), state_memory := next_ref w\<rparr>"
  by (auto simp: createFunctionFromExpression_def solve_function_def Let_def bindings_def
      split: sum.splits)

lemma old_object_keeps_trial_value:
  "allocated w \<Longrightarrow>
   heap (snd (createFunctionFromExpression toUpperCase expression variable v w)) (state_memory w) =
     (bindings w)(toUpperCase variable \<mapsto> v)"
  by (simp add: world_after_evaluation)

text \<open>
  After a whole \<open>integrate\<close> or \<open>solve\<close> call, whatever its outcome (so also after an
  error in the middle of an evaluation), the bindings of the calculator state are
  those from before the call.
\<close>

lemma bindings_after_call:
  assumes "allocated w"
  shows "bindings (snd (integrate toUpperCase (FromExpression expression) a b ioptions w)) =
      bindings w"
    and "bindings (snd (solve toUpperCase expression variable initialGuess soptions w)) =
      bindings w"
proof -
  have "preserves (integrate toUpperCase (FromExpression expression) a b ioptions)"
    by (rule preserves_integrate) simp
  with assms show "bindings (snd (integrate toUpperCase (FromExpression expression) a b
      ioptions w)) = bindings w"
    by (simp add: preserves_def)
  from assms show "bindings (snd (solve toUpperCase expression variable initialGuess
      soptions w)) = bindings w"
    using preserves_solve [of toUpperCase expression variable initialGuess soptions]
    by (simp add: preserves_def)
qed

definition initial_world :: world where
  \<comment> \<open>the calculator's initial state: angle unit DEG, register M holding 0\<close>
  "initial_world =
     \<lparr>heap = (\<lambda>r. if r = 0 then [str ''M'' \<mapsto> Num 0] else Map.empty), next_ref = 1,
      state_angleUnit = Some (str ''DEG''), state_memory = 0\<rparr>"

lemmas num_arith_defs =
  plus_num_def minus_num_def uminus_num_def times_num_def divide_num_def abs_num_def
  num_sub_def num_le_def num_eq_def num_gt_def num_ge_def isFinite_def

lemmas prog_defs = ret_def throw_def seq_def catch_wrap_def

text \<open>
  C2. The claim: each evaluation inside \<open>solve\<close> and \<open>integrate\<close> writes the trial value
  into the named variable, runs the evaluator and restores the bindings. The code
  writes it under the upper-cased name, and the tokenizer keeps the letter of a
  variable as it is written: for the variable \<open>x\<close> (the default of \<open>integrate\<close>, and the
  one of the repository's test of \<open>solve\<close>) the value goes to \<open>X\<close> and the \<open>x\<close> of the
  expression stays undefined. From the calculator's initial state, for every case
  mapping that takes \<open>x\<close> to \<open>X\<close>: the function made from the expression \<open>x\<close> and the
  variable \<open>x\<close>, applied to 5, fails with \<^verbatim>\<open>Undefined variable: x\<close>, while the one made
  from the expression \<open>X\<close> returns 5; the object that held the bindings is left with
  \<open>X = 5\<close>, and the bindings of the state afterwards are the initial ones;
  \<^verbatim>\<open>solve('x*x-4', 'x', 2)\<close> and \<^verbatim>\<open>integrate('x*x', 0, 1)\<close> fail with that error, wrapped,
  and leave the bindings of the state as they were.
\<close>

theorem C2_trial_value_not_seen:
  "toUpperCase (str ''x'') = str ''X'' \<longrightarrow>
     fst (createFunctionFromExpression toUpperCase (str ''x'') (str ''x'') (Num 5) initial_world) =
       Inl (UndefinedVariable (StrV (str ''x''))) \<and>
     fst (createFunctionFromExpression toUpperCase (str ''X'') (str ''x'') (Num 5) initial_world) =
       Inr (Num 5) \<and>
     heap (snd (createFunctionFromExpression toUpperCase (str ''x'') (str ''x'') (Num 5)
       initial_world)) (state_memory initial_world) = [str ''M'' \<mapsto> Num 0, str ''X'' \<mapsto> Num 5] \<and>
     bindings (snd (createFunctionFromExpression toUpperCase (str ''x'') (str ''x'') (Num 5)
       initial_world)) = [str ''M'' \<mapsto> Num 0] \<and>
     fst (solve toUpperCase (str ''x*x-4'') (str ''x'') (Num 2)
       (SolveOptions None None None None) initial_world) =
       Inl (SolverError (UndefinedVariable (StrV (str ''x'')))) \<and>
     bindings (snd (solve toUpperCase (str ''x*x-4'') (str ''x'') (Num 2)
       (SolveOptions None None None None) initial_world)) = [str ''M'' \<mapsto> Num 0] \<and>
     fst (integrate toUpperCase (FromExpression (str ''x*x'')) (Num 0) (Num 1)
       (IntegrateOptions None None None) initial_world) =
       Inl (IntegrationError (UndefinedVariable (StrV (str ''x'')))) \<and>
     bindings (snd (integrate toUpperCase (FromExpression (str ''x*x'')) (Num 0) (Num 1)
       (IntegrateOptions None None None) initial_world)) = [str ''M'' \<mapsto> Num 0]"
proof
  assume up: "toUpperCase (str ''x'') = str ''X''"
  have x: "createFunctionFromExpression toUpperCase (str ''x'') (str ''x'') (Num 5) initial_world =
      (Inl (UndefinedVariable (StrV (str ''x''))),
       initial_world\<lparr>heap := (heap initial_world)
           (1 := [str ''M'' \<mapsto> Num 0], 0 := [str ''M'' \<mapsto> Num 0, str ''X'' \<mapsto> Num 5]),
         next_ref := 2, state_memory := 1\<rparr>)"
    using up
    by (simp add: createFunctionFromExpression_def Let_def evaluateWithState_def
        initial_world_def pipeline_defs table_defs char_defs label_defs
        resolve_memory_def resolve_angleUnit_def)
  have X: "fst (createFunctionFromExpression toUpperCase (str ''X'') (str ''x'') (Num 5)
      initial_world) = Inr (Num 5)"
    using up
    by (simp add: createFunctionFromExpression_def Let_def evaluateWithState_def
        initial_world_def pipeline_defs table_defs char_defs label_defs
        resolve_memory_def resolve_angleUnit_def)
  have s: "fst (solve toUpperCase (str ''x*x-4'') (str ''x'') (Num 2)
       (SolveOptions None None None None) initial_world) =
       Inl (SolverError (UndefinedVariable (StrV (str ''x''))))"
    using up
    by (simp add: solve_def solve_function_def catch_wrap_def seq_def Let_def
        evaluateWithState_def initial_world_def pipeline_defs table_defs char_defs label_defs
        minus_num_def plus_num_def num_sub_def resolve_memory_def resolve_angleUnit_def)
  have i: "fst (integrate toUpperCase (FromExpression (str ''x*x'')) (Num 0) (Num 1)
       (IntegrateOptions None None None) initial_world) =
       Inl (IntegrationError (UndefinedVariable (StrV (str ''x''))))"
    using up
    by (simp add: integrate.simps [of _ _ "Num 0" "Num 1"] integrand_function_def
        createFunctionFromExpression_def catch_wrap_def seq_def Let_def isFinite_def
        evaluateWithState_def initial_world_def pipeline_defs table_defs char_defs label_defs
        resolve_memory_def resolve_angleUnit_def)
  have a: "allocated initial_world" by (simp add: allocated_def initial_world_def)
  have b: "bindings initial_world = [str ''M'' \<mapsto> Num 0]"
    by (simp add: bindings_def initial_world_def)
  have h: "heap (snd (createFunctionFromExpression toUpperCase (str ''x'') (str ''x'') (Num 5)
       initial_world)) (state_memory initial_world) = [str ''M'' \<mapsto> Num 0, str ''X'' \<mapsto> Num 5]"
    unfolding x by (simp add: initial_world_def)
  have r: "bindings (snd (createFunctionFromExpression toUpperCase (str ''x'') (str ''x'') (Num 5)
       initial_world)) = [str ''M'' \<mapsto> Num 0]"
    unfolding x by (simp add: bindings_def initial_world_def)
  from x X h r s i bindings_after_call [OF a] b
  show "fst (createFunctionFromExpression toUpperCase (str ''x'') (str ''x'') (Num 5) initial_world) =
       Inl (UndefinedVariable (StrV (str ''x''))) \<and>
     fst (createFunctionFromExpression toUpperCase (str ''X'') (str ''x'') (Num 5) initial_world) =
       Inr (Num 5) \<and>
     heap (snd (createFunctionFromExpression toUpperCase (str ''x'') (str ''x'') (Num 5)
       initial_world)) (state_memory initial_world) = [str ''M'' \<mapsto> Num 0, str ''X'' \<mapsto> Num 5] \<and>
     bindings (snd (createFunctionFromExpression toUpperCase (str ''x'') (str ''x'') (Num 5)
       initial_world)) = [str ''M'' \<mapsto> Num 0] \<and>
     fst (solve toUpperCase (str ''x*x-4'') (str ''x'') (Num 2)
       (SolveOptions None None None None) initial_world) =
       Inl (SolverError (UndefinedVariable (StrV (str ''x'')))) \<and>
     bindings (snd (solve toUpperCase (str ''x*x-4'') (str ''x'') (Num 2)
       (SolveOptions None None None None) initial_world)) = [str ''M'' \<mapsto> Num 0] \<and>
     fst (integrate toUpperCase (FromExpression (str ''x*x'')) (Num 0) (Num 1)
       (IntegrateOptions None None None) initial_world) =
       Inl (IntegrationError (UndefinedVariable (StrV (str ''x'')))) \<and>
     bindings (snd (integrate toUpperCase (FromExpression (str ''x*x'')) (Num 0) (Num 1)
       (IntegrateOptions None None None) initial_world)) = [str ''M'' \<mapsto> Num 0]"
    by simp
qed

theorem C2_trial_value_not_seen_witness:
  "fst (createFunctionFromExpression toUpperCase_ASCII (str ''x'') (str ''x'') (Num 5)
     initial_world) = Inl (UndefinedVariable (StrV (str ''x''))) \<and>
   fst (createFunctionFromExpression toUpperCase_ASCII (str ''X'') (str ''x'') (Num 5)
     initial_world) = Inr (Num 5) \<and>
   fst (solve toUpperCase_ASCII (str ''x*x-4'') (str ''x'') (Num 2)
     (SolveOptions None None None None) initial_world) =
     Inl (SolverError (UndefinedVariable (StrV (str ''x'')))) \<and>
   bindings (snd (solve toUpperCase_ASCII (str ''x*x-4'') (str ''x'') (Num 2)
     (SolveOptions None None None None) initial_world)) = [str ''M'' \<mapsto> Num 0]"
  using C2_trial_value_not_seen [of toUpperCase_ASCII]
  by (simp add: toUpperCase_ASCII_def str_def)

lemma integrate_square:
  "integrate toUpperCase (FromFunction (\<lambda>x. ret (x * x))) (Num 0) (Num 1)
     (IntegrateOptions None None None) w = (Inr (Num (1 / 3)), w)"
  by (simp add: integrate.simps [of _ _ "Num 0" "Num 1"] integrand_function_def
      adaptiveSimpson.simps [of _ "Num 0" "Num 1"] Let_def prog_defs num_arith_defs)

text \<open>
  C9. For every integrand (an expression or a function) and finite bounds,
  \<open>integrate\<close> returns exactly 0 when \<open>a = b\<close>, without running the integrand, and when
  \<open>a > b\<close> it returns the negation of \<open>integrate\<close> with the bounds swapped (and fails
  as that call fails).
\<close>

theorem C9_integrate_bounds:
  "func \<noteq> NotAFunction \<and> isFinite a \<and> isFinite b \<longrightarrow>
     (num_eq a b \<longrightarrow> integrate toUpperCase func a b options w = (Inr (Num 0), w)) \<and>
     (num_gt a b \<longrightarrow>
        integrate toUpperCase func a b options w =
          (case integrate toUpperCase func b a options w of
             (Inl e, w') \<Rightarrow> (Inl e, w')
           | (Inr r, w') \<Rightarrow> (Inr (- r), w')))"
proof (intro impI conjI)
  assume h: "func \<noteq> NotAFunction \<and> isFinite a \<and> isFinite b"
  then obtain f where f: "integrand_function toUpperCase func
      (case io_variable options of Some v \<Rightarrow> v | None \<Rightarrow> str ''x'') = Some f"
    by (cases func) (simp_all add: integrand_function_def)
  show "integrate toUpperCase func a b options w = (Inr (Num 0), w)" if "num_eq a b"
    using that h f
    by (simp add: integrate.simps [of toUpperCase func a b options w] Let_def ret_def)
  show "integrate toUpperCase func a b options w =
          (case integrate toUpperCase func b a options w of
             (Inl e, w') \<Rightarrow> (Inl e, w')
           | (Inr r, w') \<Rightarrow> (Inr (- r), w'))" if "num_gt a b"
  proof -
    from that have "\<not> num_eq a b" by (cases a; cases b) (auto simp: num_gt_def num_eq_def)
    with that h f show ?thesis
      by (simp add: integrate.simps [of toUpperCase func a b options w] Let_def)
  qed
qed

theorem C9_integrate_bounds_witness:
  "integrate toUpperCase_ASCII (FromFunction (\<lambda>x. ret (x * x))) (Num 2) (Num 2)
     (IntegrateOptions None None None) initial_world = (Inr (Num 0), initial_world) \<and>
   integrate toUpperCase_ASCII (FromFunction (\<lambda>x. ret (x * x))) (Num 1) (Num 0)
     (IntegrateOptions None None None) initial_world = (Inr (Num (- (1 / 3))), initial_world)"
  using
    C9_integrate_bounds [where func = "FromFunction (\<lambda>x. ret (x * x))" and a = "Num 2"
      and b = "Num 2" and toUpperCase = toUpperCase_ASCII
      and options = "IntegrateOptions None None None" and w = initial_world]
    C9_integrate_bounds [where func = "FromFunction (\<lambda>x. ret (x * x))" and a = "Num 1"
      and b = "Num 0" and toUpperCase = toUpperCase_ASCII
      and options = "IntegrateOptions None None None" and w = initial_world]
  by (simp add: integrate_square num_gt_def num_eq_def isFinite_def uminus_num_def)

end
